theory Spec2Isabelle
  imports Complex_Main "HOL-Library.AList"
begin

section \<open>Values, errors and tables\<close>

text \<open>
  The module \<^verbatim>\<open>notebooks/datasource.py\<close> works on pandas tables. A table cell is
  a Python scalar: \<^verbatim>\<open>None\<close>/\<^verbatim>\<open>NaN\<close> (both are "null" for \<^verbatim>\<open>isnull\<close>),
  a string, a number or a boolean. A number is a finite double, that is a real number,
  and numbers are compared by value; infinite values are left out of the model.
\<close>

datatype cell = Null | Str string | Num real | Boolean bool

text \<open>A float as numpy computes with it: a finite value or \<^verbatim>\<open>NaN\<close>.\<close>

datatype float = Finite real | NaN

text \<open>
  The exceptions the code and the library calls it makes can raise. The text carried by
  a \<open>ValueError\<close> tells the source's own \<^verbatim>\<open>raise ValueError("Data source not recognized: ...")\<close>
  from the ones pandas raises.
\<close>

datatype error =
    KeyError string
  | ValueError string
  | MergeError string
  | TypeError string
  | AttributeError string
  | ZeroDivisionError

type_synonym row = "cell list"

text \<open>
  A \<^verbatim>\<open>DataFrame\<close>: the column labels in order, and the rows in order, each row holding
  one cell per column. Index labels are not modelled: the code never reads them.
\<close>

record frame =
  columns :: "string list"
  rows :: "row list"

definition wf_frame :: "frame \<Rightarrow> bool" where
  "wf_frame df \<longleftrightarrow>
     distinct (columns df) \<and> list_all (\<lambda>r. length r = length (columns df)) (rows df)"

fun index_of :: "string \<Rightarrow> string list \<Rightarrow> nat option" where
  "index_of c [] = None"
| "index_of c (x # xs) = (if x = c then Some 0 else map_option Suc (index_of c xs))"

text \<open>The cell of row \<open>r\<close> under column \<open>c\<close>, when the table has that column.\<close>

definition cell_of :: "string list \<Rightarrow> row \<Rightarrow> string \<Rightarrow> cell option" where
  "cell_of cols r c = map_option (\<lambda>i. r ! i) (index_of c cols)"

text \<open>\<^verbatim>\<open>df[c]\<close>: the column as a list of cells, \<open>KeyError\<close> when there is none.\<close>

definition getitem :: "frame \<Rightarrow> string \<Rightarrow> error + cell list" where
  "getitem df c =
     (case index_of c (columns df) of
        None \<Rightarrow> Inl (KeyError c)
      | Some i \<Rightarrow> Inr (map (\<lambda>r. r ! i) (rows df)))"

text \<open>\<^verbatim>\<open>df[mask]\<close> with a boolean mask aligned with the rows: a new table.\<close>

definition getitem_mask :: "frame \<Rightarrow> bool list \<Rightarrow> frame" where
  "getitem_mask df m = \<lparr>columns = columns df, rows = map fst (filter snd (zip (rows df) m))\<rparr>"

definition isnull :: "cell \<Rightarrow> bool" where
  "isnull c \<longleftrightarrow> c = Null"

text \<open>\<^verbatim>\<open>df.copy()\<close>: a new table with the same contents.\<close>

definition copy :: "frame \<Rightarrow> frame" where
  "copy df = \<lparr>columns = columns df, rows = rows df\<rparr>"

section \<open>numpy: conversion to float, standard deviation, median\<close>

text \<open>
  What the interpreter and the numerical library compute in double precision is a
  parameter of the model, so that nothing below depends on how a result is rounded:

    \<^item> \<open>float_of_str s\<close> is Python's \<^verbatim>\<open>float(s)\<close> on a string, \<open>None\<close> when it raises
      \<open>ValueError\<close>;

    \<^item> \<open>std_of vs\<close> is the double that \<^verbatim>\<open>Series.std(ddof=0)\<close> returns on a series
      holding the values \<open>vs\<close>, none of them \<^verbatim>\<open>NaN\<close> and at least one: the population
      standard deviation (divide by N) as the library rounds it;

    \<^item> \<open>median_of vs\<close> is the double that \<^verbatim>\<open>np.median\<close> returns on the values \<open>vs\<close>, none
      of them \<^verbatim>\<open>NaN\<close> and at least one.
\<close>

record numerics =
  float_of_str :: "string \<Rightarrow> float option"
  std_of :: "real list \<Rightarrow> float"
  median_of :: "real list \<Rightarrow> float"

text \<open>\<^verbatim>\<open>Series.astype(float)\<close>, cell by cell.\<close>

fun to_float :: "numerics \<Rightarrow> cell \<Rightarrow> error + float" where
  "to_float nm Null = Inr NaN"
| "to_float nm (Num x) = Inr (Finite x)"
| "to_float nm (Boolean b) = Inr (Finite (if b then 1 else 0))"
| "to_float nm (Str s) =
     (case float_of_str nm s of
        None \<Rightarrow> Inl (ValueError ''could not convert string to float'')
      | Some x \<Rightarrow> Inr x)"

fun astype_float :: "numerics \<Rightarrow> cell list \<Rightarrow> error + float list" where
  "astype_float nm [] = Inr []"
| "astype_float nm (c # cs) =
     (case to_float nm c of
        Inl e \<Rightarrow> Inl e
      | Inr x \<Rightarrow> (case astype_float nm cs of Inl e \<Rightarrow> Inl e | Inr xs \<Rightarrow> Inr (x # xs)))"

text \<open>The values of a series that are not \<^verbatim>\<open>NaN\<close> (\<^verbatim>\<open>skipna\<close>).\<close>

fun dropna :: "float list \<Rightarrow> real list" where
  "dropna [] = []"
| "dropna (NaN # xs) = dropna xs"
| "dropna (Finite x # xs) = x # dropna xs"

text \<open>All the values of an array, when none of them is \<^verbatim>\<open>NaN\<close>.\<close>

fun finite_values :: "float list \<Rightarrow> real list option" where
  "finite_values [] = Some []"
| "finite_values (NaN # xs) = None"
| "finite_values (Finite x # xs) = map_option ((#) x) (finite_values xs)"

text \<open>
  \<^verbatim>\<open>np.std(s)\<close> on a \<^verbatim>\<open>Series\<close>: numpy hands the call over to the method of the
  argument, \<^verbatim>\<open>s.std(ddof=0)\<close>, which leaves the \<^verbatim>\<open>NaN\<close> values out and returns \<^verbatim>\<open>NaN\<close>
  when no value is left.
\<close>

definition np_std :: "numerics \<Rightarrow> float list \<Rightarrow> float" where
  "np_std nm xs = (let vs = dropna xs in if vs = [] then NaN else std_of nm vs)"

text \<open>
  \<^verbatim>\<open>np.median(s)\<close> has no such method to hand over to: it works on the array of the
  values, and a \<^verbatim>\<open>NaN\<close> among them, or no value at all, gives \<^verbatim>\<open>NaN\<close>.
\<close>

definition np_median :: "numerics \<Rightarrow> float list \<Rightarrow> float" where
  "np_median nm xs =
     (case finite_values xs of
        None \<Rightarrow> NaN
      | Some vs \<Rightarrow> if vs = [] then NaN else median_of nm vs)"

text \<open>
  The same two functions without rounding: the square root of the mean of the squared
  deviations from the mean, and the middle value of the sorted list (the mean of the two
  middle values when their number is even). \<open>exact_numerics\<close> computes with them; it is
  the arithmetic of the worked examples, in none of which rounding changes the outcome
  of a comparison.
\<close>

definition mean :: "real list \<Rightarrow> real" where
  "mean xs = sum_list xs / real (length xs)"

definition population_std :: "real list \<Rightarrow> real" where
  "population_std vs = sqrt (mean (map (\<lambda>x. (x - mean vs)\<^sup>2) vs))"

definition middle_value :: "real list \<Rightarrow> real" where
  "middle_value vs =
     (let s = sort vs; n = length s in
      if odd n then s ! (n div 2) else (s ! (n div 2 - 1) + s ! (n div 2)) / 2)"

definition exact_numerics :: "(string \<Rightarrow> float option) \<Rightarrow> numerics" where
  "exact_numerics pf =
     \<lparr>float_of_str = pf,
      std_of = (\<lambda>vs. Finite (population_std vs)),
      median_of = (\<lambda>vs. Finite (middle_value vs))\<rparr>"

text \<open>A comparison with \<^verbatim>\<open>NaN\<close> is false.\<close>

fun float_gt :: "float \<Rightarrow> real \<Rightarrow> bool" where
  "float_gt (Finite x) y \<longleftrightarrow> x > y"
| "float_gt NaN y \<longleftrightarrow> False"

fun cell_of_float :: "float \<Rightarrow> cell" where
  "cell_of_float (Finite x) = Num x"
| "cell_of_float NaN = Null"

section \<open>Preprocessing\<close>

record Preprocessing =
  activity_column :: string

text \<open>
  A data source object: its class and the attributes \<^verbatim>\<open>ChEMBLApiDataSource.__init__\<close>
  sets. The table is absent on an object that never set the attribute, as an instance of
  the base class \<^verbatim>\<open>DataSource\<close>; \<open>ds_activity_column\<close> is the attribute
  \<^verbatim>\<open>activity_column\<close> of the source. The attribute \<open>bioactivities_df\<close> holds a table
  (\<open>frame data_source\<close>) or, where objects live in a store, the address of one.
\<close>

datatype source_class = ChEMBLApiDataSource | DataSource | OtherDataSource string

record 't data_source =
  source_type :: source_class
  target_id :: string
  standard_types :: "string list option"
  number_retrieved_compounds :: nat
  bioactivities_df :: "'t option"
  smiles_column :: string
  compound_id_column :: string
  ds_activity_column :: string

text \<open>
  A Python dict display \<^verbatim>\<open>{k1: v1, k2: v2, ...}\<close>: a key written twice keeps its first
  position and its last value.
\<close>

definition py_dict :: "(string \<times> cell) list \<Rightarrow> (string \<times> cell) list" where
  "py_dict kvs = foldl (\<lambda>d kv. AList.update (fst kv) (snd kv) d) [] kvs"

text \<open>\<^verbatim>\<open>Preprocessing._mark_to_remove\<close>: the summary of one group, a \<^verbatim>\<open>Series\<close>.\<close>

definition mark_to_remove ::
  "numerics \<Rightarrow> Preprocessing \<Rightarrow> frame \<Rightarrow> string \<Rightarrow> error + (string \<times> cell) list"
where
  "mark_to_remove nm self data act_column =
     (case getitem data act_column of
        Inl e \<Rightarrow> Inl e
      | Inr col \<Rightarrow>
         (case astype_float nm col of
            Inl e \<Rightarrow> Inl e
          | Inr activity_value \<Rightarrow>
              let std_deviation = np_std nm activity_value;
                  number_compounds = length (rows data)
              in Inr (py_dict
                   [(''number_compounds'', Num (real number_compounds)),
                    (''standard_deviation'', cell_of_float std_deviation),
                    (activity_column self, cell_of_float (np_median nm activity_value)),
                    (''duplicated'', Boolean (number_compounds > 1)),
                    (''mark_to_remove'', Boolean (float_gt std_deviation 1))])))"

text \<open>\<^verbatim>\<open>Preprocessing._default_filter_chembl\<close>: three masks, one after the other.\<close>

definition default_filter_chembl :: "frame \<Rightarrow> error + frame" where
  "default_filter_chembl df0 =
     (case getitem df0 ''relation'' of
        Inl e \<Rightarrow> Inl e
      | Inr rel \<Rightarrow>
          let df1 = getitem_mask df0 (map (\<lambda>c. c = Str ''='') rel) in
          (case getitem df1 ''data_validity_comment'' of
             Inl e \<Rightarrow> Inl e
           | Inr dvc \<Rightarrow>
               let df2 = getitem_mask df1 (map isnull dvc) in
               (case getitem df2 ''pchembl_value'' of
                  Inl e \<Rightarrow> Inl e
                | Inr pv \<Rightarrow> Inr (getitem_mask df2 (map (\<lambda>c. \<not> isnull c) pv)))))"

section \<open>pandas: groupby, apply, reset_index, merge, head\<close>

text \<open>The distinct values of a list, in order of first appearance.\<close>

definition unique :: "'a list \<Rightarrow> 'a list" where
  "unique xs = rev (remdups (rev xs))"

text \<open>
  \<^verbatim>\<open>df.groupby(c)\<close>: \<open>KeyError\<close> without the column; one group per non-null key, each
  the table of the rows with that key, in their order. pandas lists the groups by
  sorted key; the only consumer here is an inner merge whose keys include the group key,
  and its result does not depend on the order of the summary's rows (one per group), so
  the groups stand in order of first appearance.
\<close>

definition groupby :: "frame \<Rightarrow> string \<Rightarrow> error + (cell \<times> frame) list" where
  "groupby df c =
     (case getitem df c of
        Inl e \<Rightarrow> Inl e
      | Inr ks \<Rightarrow>
          Inr (map (\<lambda>k. (k, getitem_mask df (map (\<lambda>k'. k' = k) ks)))
                 (unique (filter (\<lambda>k. \<not> isnull k) ks))))"

text \<open>The table \<^verbatim>\<open>groupby(...).apply(f)\<close> returns is indexed by the group key.\<close>

record indexed_frame =
  index_name :: "string option"
  index_values :: "cell list"
  body :: frame

fun apply_each ::
  "(frame \<Rightarrow> error + (string \<times> cell) list) \<Rightarrow> (cell \<times> frame) list \<Rightarrow>
   error + (string \<times> cell) list list" where
  "apply_each f [] = Inr []"
| "apply_each f (g # gs) =
     (case f (snd g) of
        Inl e \<Rightarrow> Inl e
      | Inr s \<Rightarrow> (case apply_each f gs of Inl e \<Rightarrow> Inl e | Inr ss \<Rightarrow> Inr (s # ss)))"

text \<open>
  \<^verbatim>\<open>groupby(c).apply(f)\<close> for an \<open>f\<close> that returns a \<^verbatim>\<open>Series\<close>: one row per group,
  the columns are the labels of the series, the index is the group key and carries the
  name \<open>c\<close>. With no group at all \<open>f\<close> is never called, and pandas (0.23 to 0.25, the
  releases of the time of the source) returns \<^verbatim>\<open>DataFrame(index=keys)\<close>: no column, no row
  and an index without a name.
\<close>

definition groupby_apply ::
  "string \<Rightarrow> (cell \<times> frame) list \<Rightarrow> (frame \<Rightarrow> error + (string \<times> cell) list) \<Rightarrow>
   error + indexed_frame" where
  "groupby_apply c groups f =
     (case apply_each f groups of
        Inl e \<Rightarrow> Inl e
      | Inr [] \<Rightarrow> Inr \<lparr>index_name = None, index_values = [], body = \<lparr>columns = [], rows = []\<rparr>\<rparr>
      | Inr (s # ss) \<Rightarrow>
          Inr \<lparr>index_name = Some c, index_values = map fst groups,
               body = \<lparr>columns = map fst s, rows = map (map snd) (s # ss)\<rparr>\<rparr>)"

text \<open>
  \<^verbatim>\<open>reset_index()\<close>: the index becomes the first column, under its name, or under
  \<^verbatim>\<open>index\<close> (\<^verbatim>\<open>level_0\<close> if that is taken) when it has none; \<open>ValueError\<close> when the table
  already has a column of that name.
\<close>

definition reset_index :: "indexed_frame \<Rightarrow> error + frame" where
  "reset_index g =
     (let cols = columns (body g);
          name = (case index_name g of
                    Some n \<Rightarrow> n
                  | None \<Rightarrow> if ''index'' \<in> set cols then ''level_0'' else ''index'')
      in if name \<in> set cols then Inl (ValueError ''cannot insert, already exists'')
         else Inr \<lparr>columns = name # cols,
                   rows = map (\<lambda>(k, r). k # r) (zip (index_values g) (rows (body g)))\<rparr>)"

text \<open>The cells of a row under the given columns (all present in \<open>cols\<close>).\<close>

definition project :: "string list \<Rightarrow> row \<Rightarrow> string list \<Rightarrow> cell option list" where
  "project cols r cs = map (cell_of cols r) cs"

text \<open>
  \<^verbatim>\<open>pd.merge(left, right)\<close> with its defaults: an inner join on all the columns the two
  tables share (\<open>MergeError\<close> when they share none); a null key matches a null key. The
  result has the columns of \<open>left\<close> followed by those of \<open>right\<close> that are not keys, and
  one row for each pair of rows with equal keys, in the order of \<open>left\<close> (the documented
  order; pandas before 2.2 lists the pairs key by key, in order of first appearance in
  \<open>left\<close>. The rows of one key keep their order either way, and the first rows of the
  keys, which is all that \<^verbatim>\<open>groupby(...).head(1)\<close> keeps, come out in the same order).
\<close>

definition merge :: "frame \<Rightarrow> frame \<Rightarrow> error + frame" where
  "merge left right =
     (let on = filter (\<lambda>c. c \<in> set (columns right)) (columns left);
          rest = filter (\<lambda>c. c \<notin> set on) (columns right)
      in if on = [] then Inl (MergeError ''No common columns to perform merge on'')
         else Inr \<lparr>columns = columns left @ rest,
                   rows = concat (map (\<lambda>l.
                            map (\<lambda>r. l @ map (\<lambda>c. case cell_of (columns right) r c of
                                                     Some v \<Rightarrow> v | None \<Rightarrow> Null) rest)
                              (filter (\<lambda>r. project (columns right) r on =
                                           project (columns left) l on) (rows right)))
                          (rows left))\<rparr>)"

text \<open>\<^verbatim>\<open>~s\<close> on a column: defined on booleans.\<close>

fun invert :: "cell list \<Rightarrow> error + bool list" where
  "invert [] = Inr []"
| "invert (Boolean b # cs) = (case invert cs of Inl e \<Rightarrow> Inl e | Inr bs \<Rightarrow> Inr ((\<not> b) # bs))"
| "invert (c # cs) = Inl (TypeError ''bad operand type for unary ~'')"

text \<open>
  \<^verbatim>\<open>groupby(c).head(1)\<close>: of the rows with a non-null key, those that are the first of
  their key, in the order of the table. \<open>seen\<close> holds the keys met so far.
\<close>

fun first_of_key :: "cell list \<Rightarrow> (cell \<times> row) list \<Rightarrow> row list" where
  "first_of_key seen [] = []"
| "first_of_key seen ((k, r) # krs) =
     (if isnull k \<or> k \<in> set seen then first_of_key seen krs
      else r # first_of_key (k # seen) krs)"

definition groupby_head1 :: "frame \<Rightarrow> string \<Rightarrow> error + frame" where
  "groupby_head1 df c =
     (case getitem df c of
        Inl e \<Rightarrow> Inl e
      | Inr ks \<Rightarrow> Inr \<lparr>columns = columns df, rows = first_of_key [] (zip ks (rows df))\<rparr>)"

section \<open>clean_dataset\<close>

text \<open>
  \<^verbatim>\<open>Preprocessing.clean_dataset\<close>. The table attribute is read and copied before the
  class of the source is looked at.
\<close>

definition clean_dataset ::
  "numerics \<Rightarrow> Preprocessing \<Rightarrow> frame data_source \<Rightarrow> error + frame" where
  "clean_dataset nm self ds =
     (case bioactivities_df ds of
        None \<Rightarrow> Inl (AttributeError ''bioactivities_df'')
      | Some table \<Rightarrow>
          let df0 = copy table in
          if source_type ds = ChEMBLApiDataSource then
            (case default_filter_chembl df0 of
               Inl e \<Rightarrow> Inl e
             | Inr df \<Rightarrow>
            (case groupby df (compound_id_column ds) of
               Inl e \<Rightarrow> Inl e
             | Inr groups \<Rightarrow>
            (case groupby_apply (compound_id_column ds) groups
                    (\<lambda>x. mark_to_remove nm self x (ds_activity_column ds)) of
               Inl e \<Rightarrow> Inl e
             | Inr grouped \<Rightarrow>
            (case reset_index grouped of
               Inl e \<Rightarrow> Inl e
             | Inr summary \<Rightarrow>
            (case merge df summary of
               Inl e \<Rightarrow> Inl e
             | Inr merged \<Rightarrow>
            (case getitem merged ''mark_to_remove'' of
               Inl e \<Rightarrow> Inl e
             | Inr marks \<Rightarrow>
            (case invert marks of
               Inl e \<Rightarrow> Inl e
             | Inr keep \<Rightarrow>
                 groupby_head1 (getitem_mask merged keep) (compound_id_column ds))))))))
          else Inl (ValueError ''Data source not recognized''))"

section \<open>Groups, summary labels and a worked example\<close>

text \<open>
  The group of key \<open>k\<close> in a table whose key column is at position \<open>i\<close>, the keys
  of its groups, and the labels of the series \<^verbatim>\<open>_mark_to_remove\<close> returns (the keys of
  its dict display, each once).
\<close>

definition group_of :: "frame \<Rightarrow> nat \<Rightarrow> cell \<Rightarrow> frame" where
  "group_of f i k = \<lparr>columns = columns f, rows = filter (\<lambda>r. r ! i = k) (rows f)\<rparr>"

definition group_keys :: "frame \<Rightarrow> nat \<Rightarrow> cell list" where
  "group_keys f i = unique (filter (\<lambda>k. k \<noteq> Null) (map (\<lambda>r. r ! i) (rows f)))"

definition summary_labels :: "Preprocessing \<Rightarrow> string list" where
  "summary_labels self =
     unique [''number_compounds'', ''standard_deviation'', activity_column self,
             ''duplicated'', ''mark_to_remove'']"

text \<open>
  The example of the specification, with a third compound \<open>C\<close> that has one row with
  relation \<open><\<close> and one valid row. \<open>example_float\<close> reads the decimal strings
  that occur in it; \<open>example_numerics\<close> is the arithmetic of the examples.
\<close>

definition example_float :: "string \<Rightarrow> float option" where
  "example_float s =
     (if s = ''5.0'' then Some (Finite 5)
      else if s = ''5.2'' then Some (Finite (26 / 5))
      else if s = ''9.0'' then Some (Finite 9)
      else if s = ''20.0'' then Some (Finite 20)
      else if s = ''7.0'' then Some (Finite 7)
      else None)"

definition example_numerics :: numerics where
  "example_numerics = exact_numerics example_float"

definition example_table :: frame where
  "example_table =
     \<lparr>columns = [''parent_molecule_chembl_id'', ''relation'', ''data_validity_comment'',
                 ''pchembl_value''],
      rows = [[Str ''A'', Str ''='', Null, Str ''5.0''],
              [Str ''A'', Str ''='', Null, Str ''5.2''],
              [Str ''B'', Str ''='', Null, Str ''9.0''],
              [Str ''B'', Str ''='', Null, Str ''20.0''],
              [Str ''C'', Str ''<'', Null, Str ''9.0''],
              [Str ''C'', Str ''='', Null, Str ''7.0'']]\<rparr>"

definition example_source :: "frame data_source" where
  "example_source =
     \<lparr>source_type = ChEMBLApiDataSource, target_id = ''CHEMBL202'',
      standard_types = Some [''IC50''], number_retrieved_compounds = 6,
      bioactivities_df = Some example_table,
      smiles_column = ''canonical_smiles'',
      compound_id_column = ''parent_molecule_chembl_id'',
      ds_activity_column = ''pchembl_value''\<rparr>"

definition example_preprocessing :: Preprocessing where
  "example_preprocessing = \<lparr>activity_column = ''median_activity_value''\<rparr>"

definition example_filtered :: frame where
  "example_filtered =
     \<lparr>columns = [''parent_molecule_chembl_id'', ''relation'', ''data_validity_comment'',
                 ''pchembl_value''],
      rows = [[Str ''A'', Str ''='', Null, Str ''5.0''],
              [Str ''A'', Str ''='', Null, Str ''5.2''],
              [Str ''B'', Str ''='', Null, Str ''9.0''],
              [Str ''B'', Str ''='', Null, Str ''20.0''],
              [Str ''C'', Str ''='', Null, Str ''7.0'']]\<rparr>"

definition example_clean :: frame where
  "example_clean =
     \<lparr>columns = [''parent_molecule_chembl_id'', ''relation'', ''data_validity_comment'',
                 ''pchembl_value'', ''number_compounds'', ''standard_deviation'',
                 ''median_activity_value'', ''duplicated'', ''mark_to_remove''],
      rows = [[Str ''A'', Str ''='', Null, Str ''5.0'', Num 2, Num (1 / 10), Num (51 / 10),
               Boolean True, Boolean False],
              [Str ''C'', Str ''='', Null, Str ''7.0'', Num 1, Num 0, Num 7,
               Boolean False, Boolean False]]\<rparr>"

definition median_named_preprocessing :: Preprocessing where
  "median_named_preprocessing = \<lparr>activity_column = ''pchembl_value''\<rparr>"

definition numeric_table :: "real list \<Rightarrow> frame" where
  "numeric_table vs =
     \<lparr>columns = [''parent_molecule_chembl_id'', ''relation'', ''data_validity_comment'',
                 ''pchembl_value''],
      rows = map (\<lambda>v. [Str ''A'', Str ''='', Null, Num v]) vs\<rparr>"

definition chembl_source :: "frame \<Rightarrow> frame data_source" where
  "chembl_source table =
     \<lparr>source_type = ChEMBLApiDataSource, target_id = ''CHEMBL202'',
      standard_types = Some [''IC50''], number_retrieved_compounds = length (rows table),
      bioactivities_df = Some table,
      smiles_column = ''canonical_smiles'',
      compound_id_column = ''parent_molecule_chembl_id'',
      ds_activity_column = ''pchembl_value''\<rparr>"

text \<open>
  \<^verbatim>\<open>Preprocessing.__init__(self, activity_column='median_activity_value')\<close>; \<open>None\<close>
  is a call that leaves the argument out.
\<close>

definition Preprocessing_init :: "string option \<Rightarrow> Preprocessing" where
  "Preprocessing_init arg =
     \<lparr>activity_column = (case arg of None \<Rightarrow> ''median_activity_value'' | Some c \<Rightarrow> c)\<rparr>"

text \<open>
  An instance of the base class \<^verbatim>\<open>DataSource\<close>: the class sets no attribute, so the
  object has no table; the column names are never read.
\<close>

definition base_source :: "frame data_source" where
  "base_source =
     \<lparr>source_type = DataSource, target_id = [],
      standard_types = None, number_retrieved_compounds = 0,
      bioactivities_df = None,
      smiles_column = [],
      compound_id_column = [], ds_activity_column = []\<rparr>"

text \<open>A source of another class that carries the example table.\<close>

definition csv_source :: "frame data_source" where
  "csv_source =
     \<lparr>source_type = OtherDataSource ''CsvDataSource'', target_id = [],
      standard_types = None, number_retrieved_compounds = 0,
      bioactivities_df = Some example_table,
      smiles_column = ''canonical_smiles'',
      compound_id_column = ''parent_molecule_chembl_id'',
      ds_activity_column = ''pchembl_value''\<rparr>"

section \<open>ChEMBLApiDataSource: the fetch\<close>


























section \<open>Tables as objects in a store\<close>

text \<open>
  To speak of mutation and aliasing, tables are objects in a store: an address is a
  position in the list of the table objects allocated so far, and a statement that builds
  a table allocates a new object. The data source holds the address of its table. The
  grouped summary before \<^verbatim>\<open>reset_index\<close> is passed on as a value.
\<close>

type_synonym addr = nat

type_synonym store = "frame list"

definition new_frame :: "frame \<Rightarrow> store \<Rightarrow> addr \<times> store" where
  "new_frame df h = (length h, h @ [df])"

definition deref :: "store \<Rightarrow> addr data_source \<Rightarrow> frame data_source" where
  "deref h ds =
     \<lparr>source_type = source_type ds, target_id = target_id ds,
      standard_types = standard_types ds,
      number_retrieved_compounds = number_retrieved_compounds ds,
      bioactivities_df = map_option (\<lambda>a. h ! a) (bioactivities_df ds),
      smiles_column = smiles_column ds, compound_id_column = compound_id_column ds,
      ds_activity_column = ds_activity_column ds\<rparr>"

text \<open>
  \<^verbatim>\<open>_default_filter_chembl\<close>: each \<^verbatim>\<open>bioactivities_df = bioactivities_df[valid_rows]\<close>
  builds a new table and rebinds the local name.
\<close>

definition default_filter_chembl_store :: "addr \<Rightarrow> store \<Rightarrow> (error + addr) \<times> store" where
  "default_filter_chembl_store a h =
     (case getitem (h ! a) ''relation'' of
        Inl e \<Rightarrow> (Inl e, h)
      | Inr rel \<Rightarrow>
          let (a1, h1) = new_frame (getitem_mask (h ! a) (map (\<lambda>c. c = Str ''='') rel)) h in
          (case getitem (h1 ! a1) ''data_validity_comment'' of
             Inl e \<Rightarrow> (Inl e, h1)
           | Inr dvc \<Rightarrow>
               let (a2, h2) = new_frame (getitem_mask (h1 ! a1) (map isnull dvc)) h1 in
               (case getitem (h2 ! a2) ''pchembl_value'' of
                  Inl e \<Rightarrow> (Inl e, h2)
                | Inr pv \<Rightarrow>
                    let (a3, h3) =
                          new_frame (getitem_mask (h2 ! a2) (map (\<lambda>c. \<not> isnull c) pv)) h2
                    in (Inr a3, h3))))"

definition clean_dataset_store ::
  "numerics \<Rightarrow> Preprocessing \<Rightarrow> addr data_source \<Rightarrow> store \<Rightarrow>
   (error + addr) \<times> store" where
  "clean_dataset_store nm self ds h =
     (case bioactivities_df ds of
        None \<Rightarrow> (Inl (AttributeError ''bioactivities_df''), h)
      | Some a \<Rightarrow>
          let (a0, h0) = new_frame (copy (h ! a)) h in
          if source_type ds = ChEMBLApiDataSource then
            (case default_filter_chembl_store a0 h0 of
               (Inl e, h1) \<Rightarrow> (Inl e, h1)
             | (Inr a1, h1) \<Rightarrow>
            (case groupby (h1 ! a1) (compound_id_column ds) of
               Inl e \<Rightarrow> (Inl e, h1)
             | Inr groups \<Rightarrow>
            (case groupby_apply (compound_id_column ds) groups
                    (\<lambda>x. mark_to_remove nm self x (ds_activity_column ds)) of
               Inl e \<Rightarrow> (Inl e, h1)
             | Inr grouped \<Rightarrow>
            (case reset_index grouped of
               Inl e \<Rightarrow> (Inl e, h1)
             | Inr summary \<Rightarrow>
                 let (a2, h2) = new_frame summary h1 in
            (case merge (h2 ! a1) (h2 ! a2) of
               Inl e \<Rightarrow> (Inl e, h2)
             | Inr merged \<Rightarrow>
                 let (a3, h3) = new_frame merged h2 in
            (case getitem (h3 ! a3) ''mark_to_remove'' of
               Inl e \<Rightarrow> (Inl e, h3)
             | Inr marks \<Rightarrow>
            (case invert marks of
               Inl e \<Rightarrow> (Inl e, h3)
             | Inr keep \<Rightarrow>
                 let (a4, h4) = new_frame (getitem_mask (h3 ! a3) keep) h3 in
            (case groupby_head1 (h4 ! a4) (compound_id_column ds) of
               Inl e \<Rightarrow> (Inl e, h4)
             | Inr clean_df \<Rightarrow>
                 let (a5, h5) = new_frame clean_df h4 in (Inr a5, h5)))))))))
          else (Inl (ValueError ''Data source not recognized''), h0))"

text \<open>A store with the example table at address 0 and another object at address 1.\<close>

definition example_store :: store where
  "example_store = [example_table, example_filtered]"

definition example_object :: "addr data_source" where
  "example_object =
     \<lparr>source_type = ChEMBLApiDataSource, target_id = ''CHEMBL202'',
      standard_types = Some [''IC50''], number_retrieved_compounds = 6,
      bioactivities_df = Some 0, smiles_column = ''canonical_smiles'',
      compound_id_column = ''parent_molecule_chembl_id'',
      ds_activity_column = ''pchembl_value''\<rparr>"



section \<open>Auxiliary facts\<close>

lemma index_of_Some: "index_of c xs = Some i \<Longrightarrow> i < length xs \<and> xs ! i = c"
  by (induction xs arbitrary: i) (auto split: if_splits)

lemma index_of_None: "index_of c xs = None \<longleftrightarrow> c \<notin> set xs"
  by (induction xs) auto

lemma index_of_append_left: "index_of c xs = Some i \<Longrightarrow> index_of c (xs @ ys) = Some i"
  by (induction xs arbitrary: i) (auto split: if_splits)

lemma index_of_append_right:
  "c \<notin> set xs \<Longrightarrow> index_of c (xs @ ys) = map_option (\<lambda>j. length xs + j) (index_of c ys)"
proof (induction xs)
  case Nil
  show ?case by (cases "index_of c ys") simp_all
next
  case (Cons x xs)
  then show ?case by (cases "index_of c ys") auto
qed

lemma nth_index_of_map:
  "distinct xs \<Longrightarrow> length vs = length xs \<Longrightarrow>
   map (\<lambda>c. case map_option (\<lambda>j. vs ! j) (index_of c xs) of Some v \<Rightarrow> v | None \<Rightarrow> d) xs = vs"
proof (induction xs arbitrary: vs)
  case Nil
  then show ?case by simp
next
  case (Cons x xs)
  then obtain v vs' where vs: "vs = v # vs'" by (cases vs) auto
  have len: "length vs' = length xs" and dist: "distinct xs" and nin: "x \<notin> set xs"
    using Cons.prems by (simp_all add: vs)
  have "map (\<lambda>c. case map_option (\<lambda>j. vs ! j) (index_of c (x # xs)) of Some v \<Rightarrow> v | None \<Rightarrow> d) xs
        = map (\<lambda>c. case map_option (\<lambda>j. vs' ! j) (index_of c xs) of Some v \<Rightarrow> v | None \<Rightarrow> d) xs"
  proof (rule map_cong [OF refl])
    fix c assume "c \<in> set xs"
    then have "x \<noteq> c" using nin by auto
    then show "(case map_option (\<lambda>j. vs ! j) (index_of c (x # xs)) of Some v \<Rightarrow> v | None \<Rightarrow> d)
        = (case map_option (\<lambda>j. vs' ! j) (index_of c xs) of Some v \<Rightarrow> v | None \<Rightarrow> d)"
      by (cases "index_of c xs") (simp_all add: vs)
  qed
  also have "\<dots> = vs'" by (rule Cons.IH [OF dist len])
  finally show ?case by (simp add: vs)
qed

lemma mask_filter: "map fst (filter snd (zip xs (map f xs))) = filter f xs"
  by (induction xs) auto

lemma getitem_Inr:
  "getitem df c = Inr col \<longleftrightarrow>
     (\<exists>i. index_of c (columns df) = Some i \<and> col = map (\<lambda>r. r ! i) (rows df))"
  by (auto simp: getitem_def split: option.splits)

lemma getitem_Inl:
  "getitem df c = Inl e \<longleftrightarrow> (index_of c (columns df) = None \<and> e = KeyError c)"
  by (auto simp: getitem_def split: option.splits)

lemma getitem_mask_rows [simp]:
  "getitem_mask \<lparr>columns = cs, rows = R\<rparr> (map h R) = \<lparr>columns = cs, rows = filter h R\<rparr>"
  using mask_filter [of R h] by (simp add: getitem_mask_def)

lemma getitem_mask_rows' [simp]:
  "getitem_mask df (map h (rows df)) = \<lparr>columns = columns df, rows = filter h (rows df)\<rparr>"
  using mask_filter [of "rows df" h] by (simp add: getitem_mask_def)

lemma default_filter_chembl_Inr:
  assumes "default_filter_chembl df = Inr f"
  shows "\<exists>a b c. index_of ''relation'' (columns df) = Some a
           \<and> index_of ''data_validity_comment'' (columns df) = Some b
           \<and> index_of ''pchembl_value'' (columns df) = Some c
           \<and> f = \<lparr>columns = columns df,
                  rows = filter (\<lambda>r. r ! a = Str ''='' \<and> r ! b = Null \<and> r ! c \<noteq> Null) (rows df)\<rparr>"
  using assms
  by (auto simp: default_filter_chembl_def getitem_def isnull_def comp_def
        Let_def conj_commute conj_left_commute split: option.splits cong: filter_cong)

lemma default_filter_chembl_ok:
  assumes "index_of ''relation'' (columns df) = Some a"
      "index_of ''data_validity_comment'' (columns df) = Some b"
      "index_of ''pchembl_value'' (columns df) = Some c"
  shows "default_filter_chembl df = Inr \<lparr>columns = columns df,
                  rows = filter (\<lambda>r. r ! a = Str ''='' \<and> r ! b = Null \<and> r ! c \<noteq> Null) (rows df)\<rparr>"
  using assms
  by (auto simp: default_filter_chembl_def getitem_def isnull_def comp_def
        Let_def conj_commute conj_left_commute split: option.splits cong: filter_cong)

lemma first_of_key_filter:
  "filter (\<lambda>r. key r = k) (first_of_key seen (zip (map key rs) rs)) =
     (if k = Null \<or> k \<in> set seen then []
      else (case find (\<lambda>r. key r = k) rs of None \<Rightarrow> [] | Some r \<Rightarrow> [r]))"
proof (induction rs arbitrary: seen)
  case Nil
  show ?case by simp
next
  case (Cons r rs)
  show ?case
  proof (cases "isnull (key r) \<or> key r \<in> set seen")
    case True
    then show ?thesis using Cons.IH [of seen] by (auto simp: isnull_def)
  next
    case False
    then show ?thesis using Cons.IH [of "key r # seen"] by (auto simp: isnull_def)
  qed
qed

lemma first_of_key_subset: "set (first_of_key seen krs) \<subseteq> snd ` set krs"
  by (induction seen krs rule: first_of_key.induct) auto

lemma first_of_key_distinct:
  "distinct (map key (first_of_key seen (zip (map key rs) rs))) \<and>
   set (map key (first_of_key seen (zip (map key rs) rs))) \<inter> (insert Null (set seen)) = {}"
proof (induction rs arbitrary: seen)
  case Nil
  show ?case by simp
next
  case (Cons r rs)
  show ?case
  proof (cases "isnull (key r) \<or> key r \<in> set seen")
    case True
    then show ?thesis using Cons.IH [of seen] by simp
  next
    case False
    then show ?thesis using Cons.IH [of "key r # seen"] by (auto simp: isnull_def)
  qed
qed

lemma apply_each_Inr:
  "apply_each f gs = Inr ss \<Longrightarrow> list_all2 (\<lambda>g s. f (snd g) = Inr s) gs ss"
  by (induction gs arbitrary: ss) (auto split: sum.splits)

lemma unique_snoc: "unique (xs @ [x]) = (if x \<in> set xs then unique xs else unique xs @ [x])"
  by (simp add: unique_def)

lemma set_unique [simp]: "set (unique xs) = set xs"
  by (simp add: unique_def)

lemma distinct_unique [simp]: "distinct (unique xs)"
  by (simp add: unique_def)

lemma py_dict_snoc: "py_dict (kvs @ [kv]) = AList.update (fst kv) (snd kv) (py_dict kvs)"
  by (simp add: py_dict_def)

lemma py_dict_keys: "map fst (py_dict kvs) = unique (map fst kvs)"
proof (induction kvs rule: rev_induct)
  case Nil
  show ?case by (simp add: py_dict_def unique_def)
next
  case (snoc kv kvs)
  then show ?case by (simp add: py_dict_snoc unique_snoc update_keys)
qed

lemma py_dict_last: "map_of (py_dict (kvs @ [(k, v)])) k = Some v"
  by (simp add: py_dict_snoc update_conv')

lemma groupby_Inr:
  assumes "index_of c (columns f) = Some i"
  shows "groupby f c = Inr (map (\<lambda>k. (k, group_of f i k)) (group_keys f i))"
  using assms
  by (simp add: groupby_def getitem_def group_of_def group_keys_def isnull_def comp_def)

lemma groupby_Inl:
  assumes "index_of c (columns f) = None"
  shows "groupby f c = Inl (KeyError c)"
  using assms by (simp add: groupby_def getitem_def)

lemma mark_to_remove_Inr:
  assumes "mark_to_remove nm self g act = Inr s"
  shows "map fst s = summary_labels self \<and>
     (\<exists>a vs. index_of act (columns g) = Some a \<and>
        astype_float nm (map (\<lambda>r. r ! a) (rows g)) = Inr vs \<and>
        map_of s ''mark_to_remove'' = Some (Boolean (float_gt (np_std nm vs) 1)))"
proof -
  from assms obtain a where a: "index_of act (columns g) = Some a"
    by (auto simp: mark_to_remove_def getitem_def split: option.splits)
  from assms a obtain vs where vs: "astype_float nm (map (\<lambda>r. r ! a) (rows g)) = Inr vs"
    by (auto simp: mark_to_remove_def getitem_def split: sum.splits)
  let ?kvs = "[(''number_compounds'', Num (real (length (rows g)))),
                    (''standard_deviation'', cell_of_float (np_std nm vs)),
                    (activity_column self, cell_of_float (np_median nm vs)),
                    (''duplicated'', Boolean (length (rows g) > 1))]"
  have s: "s = py_dict (?kvs @ [(''mark_to_remove'', Boolean (float_gt (np_std nm vs) 1))])"
    using assms a vs by (simp add: mark_to_remove_def getitem_def Let_def)
  have "map fst s = summary_labels self"
    unfolding s py_dict_keys summary_labels_def by simp
  moreover have "map_of s ''mark_to_remove'' = Some (Boolean (float_gt (np_std nm vs) 1))"
    unfolding s by (rule py_dict_last)
  ultimately show ?thesis using a vs by blast
qed

lemma filter_common_key:
  assumes "distinct C" "idc \<in> set C" "set C \<inter> set L = {}"
  shows "filter (\<lambda>c. c \<in> set (idc # L)) C = [idc]"
proof -
  have "filter (\<lambda>c. c \<in> set (idc # L)) C = filter (\<lambda>c. c = idc) C"
    using assms(3) by (intro filter_cong) auto
  also have "\<dots> = [idc]"
    using assms(1,2) by (induction C) (auto simp: filter_empty_conv)
  finally show ?thesis .
qed

lemma filter_eq_key:
  "distinct ks \<Longrightarrow> filter (\<lambda>k. k = x) ks = (if x \<in> set ks then [x] else [])"
  by (induction ks) (auto simp: filter_empty_conv)

lemma cell_of_head: "cell_of (c # cs) r c = Some (r ! 0)"
  by (simp add: cell_of_def)

lemma cell_of_index: "index_of c cs = Some i \<Longrightarrow> cell_of cs r c = Some (r ! i)"
  by (simp add: cell_of_def)

lemma summary_cells:
  assumes "distinct L" "idc \<notin> set L" "length v = length L"
  shows "map (\<lambda>c. case cell_of (idc # L) (k # v) c of Some x \<Rightarrow> x | None \<Rightarrow> Null) L = v"
proof -
  have "map (\<lambda>c. case cell_of (idc # L) (k # v) c of Some x \<Rightarrow> x | None \<Rightarrow> Null) L
        = map (\<lambda>c. case map_option (\<lambda>j. v ! j) (index_of c L) of Some x \<Rightarrow> x | None \<Rightarrow> Null) L"
  proof (rule map_cong [OF refl])
    fix c assume "c \<in> set L"
    then have "idc \<noteq> c" using assms(2) by auto
    then show "(case cell_of (idc # L) (k # v) c of Some x \<Rightarrow> x | None \<Rightarrow> Null)
       = (case map_option (\<lambda>j. v ! j) (index_of c L) of Some x \<Rightarrow> x | None \<Rightarrow> Null)"
      by (cases "index_of c L") (simp_all add: cell_of_def)
  qed
  also have "\<dots> = v" by (rule nth_index_of_map [OF assms(1,3)])
  finally show ?thesis .
qed

lemma merge_summary:
  assumes C: "distinct C" and i: "index_of idc C = Some i" and CL: "set C \<inter> set L = {}"
    and L: "distinct L" "idc \<notin> set L" and keys: "distinct keys"
    and len: "\<forall>k\<in>set keys. length (v k) = length L"
  shows "merge \<lparr>columns = C, rows = R\<rparr> \<lparr>columns = idc # L, rows = map (\<lambda>k. k # v k) keys\<rparr>
     = Inr \<lparr>columns = C @ L,
            rows = map (\<lambda>l. l @ v (l ! i)) (filter (\<lambda>l. l ! i \<in> set keys) R)\<rparr>"
proof -
  have mem: "idc \<in> set C" using i index_of_Some by fastforce
  have on: "filter (\<lambda>c. c \<in> set (idc # L)) C = [idc]"
    by (rule filter_common_key [OF C mem CL])
  have rest: "filter (\<lambda>c. c \<notin> set [idc]) (idc # L) = L"
    using L(2) by (auto simp: filter_id_conv)
  have row: "map (\<lambda>r. l @ map (\<lambda>c. case cell_of (idc # L) r c of Some x \<Rightarrow> x | None \<Rightarrow> Null) L)
              (filter (\<lambda>r. project (idc # L) r [idc] = project C l [idc]) (map (\<lambda>k. k # v k) keys))
            = (if l ! i \<in> set keys then [l @ v (l ! i)] else [])" for l
  proof -
    have "filter (\<lambda>r. project (idc # L) r [idc] = project C l [idc]) (map (\<lambda>k. k # v k) keys)
          = map (\<lambda>k. k # v k) (filter (\<lambda>k. k = l ! i) keys)"
      by (simp add: filter_map comp_def project_def cell_of_head cell_of_index [OF i])
    also have "\<dots> = (if l ! i \<in> set keys then [l ! i # v (l ! i)] else [])"
      by (simp add: filter_eq_key [OF keys])
    finally show ?thesis
      using len by (simp add: summary_cells [OF L])
  qed
  have cc: "concat (map (\<lambda>l. if l ! i \<in> set keys then [l @ v (l ! i)] else []) R)
        = map (\<lambda>l. l @ v (l ! i)) (filter (\<lambda>l. l ! i \<in> set keys) R)"
    by (induction R) auto
  have "merge \<lparr>columns = C, rows = R\<rparr> \<lparr>columns = idc # L, rows = map (\<lambda>k. k # v k) keys\<rparr>
     = (if [idc] = [] then Inl (MergeError ''No common columns to perform merge on'')
        else Inr \<lparr>columns = C @ L,
            rows = concat (map (\<lambda>l. if l ! i \<in> set keys then [l @ v (l ! i)] else []) R)\<rparr>)"
    by (simp only: merge_def Let_def frame.select_convs on rest row)
  then show ?thesis by (simp add: cc)
qed

lemma copy_id [simp]: "copy df = df"
  by (simp add: copy_def)

lemma map_of_index_of:
  "index_of c (map fst al) = Some j \<Longrightarrow> map_of al c = Some (snd (al ! j))"
  by (induction al arbitrary: j) (auto split: if_splits)

lemma apply_each_map:
  assumes "apply_each F (map (\<lambda>k. (k, G k)) keys) = Inr ss"
  shows "ss = map (\<lambda>k. case F (G k) of Inr s \<Rightarrow> s | Inl e \<Rightarrow> []) keys \<and>
         (\<forall>k\<in>set keys. \<exists>s. F (G k) = Inr s)"
  using assms by (induction keys arbitrary: ss) (auto split: sum.splits)

lemma mask_filter_map2:
  "map fst (filter snd (zip (map g xs) (map h xs))) = map g (filter h xs)"
  by (induction xs) auto

lemma invert_Boolean: "invert (map (\<lambda>x. Boolean (m x)) xs) = Inr (map (\<lambda>x. \<not> m x) xs)"
  by (induction xs) auto

lemma zip_map_keys: "map (\<lambda>(k, r). k # r) (zip keys (map g keys)) = map (\<lambda>k. k # g k) keys"
  by (induction keys) auto

lemma clean_dataset_closed:
  assumes wf: "wf_frame table" and tab: "bioactivities_df ds = Some table"
    and nc: "set (columns table) \<inter> set (summary_labels self) = {}"
    and ok: "clean_dataset nm self ds = Inr out"
  shows "\<exists>f i sm. source_type ds = ChEMBLApiDataSource \<and>
     default_filter_chembl table = Inr f \<and>
     index_of (compound_id_column ds) (columns table) = Some i \<and>
     compound_id_column ds \<notin> set (summary_labels self) \<and>
     group_keys f i \<noteq> [] \<and>
     (\<forall>k\<in>set (group_keys f i).
         mark_to_remove nm self (group_of f i k) (ds_activity_column ds) = Inr (sm k)) \<and>
     out = \<lparr>columns = columns table @ summary_labels self,
            rows = (let R = map (\<lambda>l. l @ map snd (sm (l ! i)))
                             (filter (\<lambda>l. l ! i \<noteq> Null \<and>
                                 map_of (sm (l ! i)) ''mark_to_remove'' \<noteq> Some (Boolean True)) (rows f))
                    in first_of_key [] (zip (map (\<lambda>r. r ! i) R) R))\<rparr>"
proof -
  let ?idc = "compound_id_column ds"
  let ?F = "\<lambda>x. mark_to_remove nm self x (ds_activity_column ds)"
  let ?L = "summary_labels self"
  let ?C = "columns table"
  from ok tab obtain f groups grouped summary merged marks keep where
    st: "source_type ds = ChEMBLApiDataSource" and
    f: "default_filter_chembl table = Inr f" and
    g: "groupby f ?idc = Inr groups" and
    ga: "groupby_apply ?idc groups ?F = Inr grouped" and
    ri: "reset_index grouped = Inr summary" and
    mg: "merge f summary = Inr merged" and
    gm: "getitem merged ''mark_to_remove'' = Inr marks" and
    inv: "invert marks = Inr keep" and
    hd: "groupby_head1 (getitem_mask merged keep) ?idc = Inr out"
    by (auto simp: clean_dataset_def Let_def split: sum.splits if_splits)
  from default_filter_chembl_Inr [OF f] obtain P where
    fdef: "f = \<lparr>columns = ?C, rows = filter P (rows table)\<rparr>" by blast
  have cf: "columns f = ?C" and rf: "set (rows f) \<subseteq> set (rows table)"
    by (simp_all add: fdef)
  have dC: "distinct ?C" using wf by (simp add: wf_frame_def)
  have lenr: "length l = length ?C" if "l \<in> set (rows f)" for l
    using wf rf that by (auto simp: wf_frame_def list_all_iff)
  have mtrL: "''mark_to_remove'' \<in> set ?L" by (simp add: summary_labels_def)
  have mtrC: "''mark_to_remove'' \<notin> set ?C" using nc mtrL by auto
  obtain i where i: "index_of ?idc ?C = Some i"
    using g cf by (cases "index_of ?idc ?C") (simp_all add: groupby_Inl)
  have iC: "i < length ?C" using index_of_Some [OF i] by simp
  let ?keys = "group_keys f i"
  have groups: "groups = map (\<lambda>k. (k, group_of f i k)) ?keys"
    using g groupby_Inr [of ?idc f i] i cf by simp
  from ga obtain ss where ae: "apply_each ?F groups = Inr ss"
    by (auto simp: groupby_apply_def split: sum.splits)
  define sm where "sm k = (case ?F (group_of f i k) of Inr s \<Rightarrow> s | Inl e \<Rightarrow> [])" for k
  have ss: "ss = map sm ?keys" and all: "\<forall>k\<in>set ?keys. \<exists>s. ?F (group_of f i k) = Inr s"
    using apply_each_map [OF ae [unfolded groups]] by (simp_all add: sm_def)
  have smk: "?F (group_of f i k) = Inr (sm k)" if "k \<in> set ?keys" for k
    using all that by (auto simp: sm_def)
  have fstk: "map fst (sm k) = ?L" if "k \<in> set ?keys" for k
    using mark_to_remove_Inr [OF smk [OF that]] by simp
  have ne: "?keys \<noteq> []"
  proof
    assume e: "?keys = []"
    then have "grouped = \<lparr>index_name = None, index_values = [], body = \<lparr>columns = [], rows = []\<rparr>\<rparr>"
      using ga ae ss by (simp add: groupby_apply_def)
    then have "summary = \<lparr>columns = [''index''], rows = []\<rparr>"
      using ri by (simp add: reset_index_def)
    then have "columns merged = ?C"
      using mg cf by (auto simp: merge_def Let_def filter_empty_conv split: if_splits)
    then show False using gm mtrC by (simp add: getitem_def index_of_None [THEN iffD2])
  qed
  then obtain k0 ks0 where k0: "?keys = k0 # ks0" by (cases ?keys) auto
  have grouped: "grouped = \<lparr>index_name = Some ?idc, index_values = ?keys,
       body = \<lparr>columns = ?L, rows = map (map snd) ss\<rparr>\<rparr>"
  proof -
    have "ss = sm k0 # map sm ks0" using ss k0 by simp
    moreover have "map fst (sm k0) = ?L" using fstk [of k0] k0 by simp
    moreover have "map fst groups = ?keys" by (simp add: groups comp_def)
    ultimately show ?thesis using ga ae by (simp add: groupby_apply_def)
  qed
  have idcL: "?idc \<notin> set ?L"
    using ri by (auto simp: grouped reset_index_def Let_def split: if_splits)
  have summary: "summary = \<lparr>columns = ?idc # ?L, rows = map (\<lambda>k. k # map snd (sm k)) ?keys\<rparr>"
    using ri idcL by (simp add: grouped reset_index_def Let_def ss zip_map_keys comp_def)
  have dk: "distinct ?keys" by (simp add: group_keys_def)
  have lenv: "\<forall>k\<in>set ?keys. length (map snd (sm k)) = length ?L"
    using fstk by (metis length_map)
  have dL: "distinct ?L" by (simp add: summary_labels_def)
  let ?R0 = "filter (\<lambda>l. l ! i \<in> set ?keys) (rows f)"
  let ?ext = "\<lambda>l. l @ map snd (sm (l ! i))"
  have merged: "merged = \<lparr>columns = ?C @ ?L, rows = map ?ext ?R0\<rparr>"
    using merge_summary [OF dC i nc dL idcL dk lenv, of "rows f"] mg
    by (simp add: summary fdef)
  obtain j where j: "index_of ''mark_to_remove'' ?L = Some j"
    using mtrL by (cases "index_of ''mark_to_remove'' ?L") (simp_all add: index_of_None)
  have jm: "index_of ''mark_to_remove'' (?C @ ?L) = Some (length ?C + j)"
    using index_of_append_right [OF mtrC, of ?L] j by simp
  define mk where "mk k \<longleftrightarrow> map_of (sm k) ''mark_to_remove'' = Some (Boolean True)" for k
  have cellm: "?ext l ! (length ?C + j) = Boolean (mk (l ! i))" if "l \<in> set ?R0" for l
  proof -
    from that have lf: "l \<in> set (rows f)" and kk: "l ! i \<in> set ?keys" by auto
    have jj: "j < length ?L" using index_of_Some [OF j] by simp
    from mark_to_remove_Inr [OF smk [OF kk]] obtain b where
      b: "map_of (sm (l ! i)) ''mark_to_remove'' = Some (Boolean b)" by blast
    have "map_of (sm (l ! i)) ''mark_to_remove'' = Some (snd (sm (l ! i) ! j))"
      by (rule map_of_index_of) (simp add: fstk [OF kk] j)
    with b have e: "snd (sm (l ! i) ! j) = Boolean b" by simp
    have "mk (l ! i) = b" unfolding mk_def b by simp
    with e have "snd (sm (l ! i) ! j) = Boolean (mk (l ! i))" by simp
    moreover have "length (sm (l ! i)) = length ?L" using fstk [OF kk] by (metis length_map)
    ultimately show ?thesis using lenr [OF lf] jj by (simp add: nth_append)
  qed
  have "marks = map (\<lambda>l. ?ext l ! (length ?C + j)) ?R0"
    using gm by (auto simp: getitem_def merged jm comp_def)
  also have "\<dots> = map (\<lambda>l. Boolean (mk (l ! i))) ?R0"
    by (rule map_cong [OF refl]) (rule cellm)
  finally have marks: "marks = map (\<lambda>l. Boolean (mk (l ! i))) ?R0" .
  have keep: "keep = map (\<lambda>l. \<not> mk (l ! i)) ?R0"
    using inv by (simp add: marks invert_Boolean)
  let ?R1 = "filter (\<lambda>l. \<not> mk (l ! i)) ?R0"
  have masked: "getitem_mask merged keep = \<lparr>columns = ?C @ ?L, rows = map ?ext ?R1\<rparr>"
    by (simp add: getitem_mask_def merged keep mask_filter_map2)
  have memk: "l ! i \<in> set ?keys \<longleftrightarrow> l ! i \<noteq> Null" if "l \<in> set (rows f)" for l
    using that by (auto simp: group_keys_def)
  have R1: "?R1 = filter (\<lambda>l. l ! i \<noteq> Null \<and>
                 map_of (sm (l ! i)) ''mark_to_remove'' \<noteq> Some (Boolean True)) (rows f)"
    using memk by (auto simp: mk_def intro: filter_cong)
  have exti: "?ext l ! i = l ! i" if "l \<in> set (rows f)" for l
    using lenr [OF that] iC by (simp add: nth_append)
  have keycol: "map (\<lambda>r. r ! i) (map ?ext ?R1) = map (\<lambda>l. l ! i) ?R1"
    using exti by simp
  have "out = \<lparr>columns = ?C @ ?L,
           rows = first_of_key [] (zip (map (\<lambda>r. r ! i) (map ?ext ?R1)) (map ?ext ?R1))\<rparr>"
    using hd index_of_append_left [OF i, of ?L]
    by (simp add: groupby_head1_def getitem_def masked)
  then have "out = \<lparr>columns = ?C @ ?L,
            rows = (let R = map ?ext
                             (filter (\<lambda>l. l ! i \<noteq> Null \<and>
                                 map_of (sm (l ! i)) ''mark_to_remove'' \<noteq> Some (Boolean True)) (rows f))
                    in first_of_key [] (zip (map (\<lambda>r. r ! i) R) R))\<rparr>"
    unfolding Let_def R1 [symmetric] .
  with st f i idcL ne smk show ?thesis by blast
qed

lemma count_distinct:
  "distinct (map key rs) \<Longrightarrow> c \<in> set (map key rs) \<Longrightarrow> length (filter (\<lambda>r. key r = c) rs) = 1"
proof (induction rs)
  case Nil
  then show ?case by simp
next
  case (Cons r rs)
  show ?case
  proof (cases "key r = c")
    case True
    then have "c \<notin> key ` set rs" using Cons.prems(1) by auto
    then have "filter (\<lambda>r. key r = c) rs = []" by (auto simp: filter_empty_conv)
    with True show ?thesis by simp
  next
    case False
    then show ?thesis using Cons by auto
  qed
qed

lemma merge_Inr:
  assumes "merge left right = Inr m"
  shows "(\<exists>rest. columns m = columns left @ rest) \<and>
         (\<forall>r\<in>set (rows m). \<exists>l\<in>set (rows left). \<exists>e. r = l @ e)"
  using assms by (fastforce simp: merge_def Let_def split: if_splits)

lemma clean_dataset_general:
  assumes ok: "clean_dataset nm self ds = Inr out"
  shows "\<exists>table f rest i R. bioactivities_df ds = Some table \<and>
     default_filter_chembl table = Inr f \<and> columns out = columns table @ rest \<and>
     index_of (compound_id_column ds) (columns table) = Some i \<and>
     rows out = first_of_key [] (zip (map (\<lambda>r. r ! i) R) R) \<and>
     (\<forall>r\<in>set R. \<exists>l\<in>set (rows f). \<exists>e. r = l @ e)"
proof -
  let ?idc = "compound_id_column ds"
  let ?F = "\<lambda>x. mark_to_remove nm self x (ds_activity_column ds)"
  from ok obtain table f groups grouped summary merged marks keep where
    tab: "bioactivities_df ds = Some table" and
    f: "default_filter_chembl table = Inr f" and
    g: "groupby f ?idc = Inr groups" and
    mg: "merge f summary = Inr merged" and
    hd: "groupby_head1 (getitem_mask merged keep) ?idc = Inr out"
    by (auto simp: clean_dataset_def Let_def split: sum.splits if_splits option.splits)
  from default_filter_chembl_Inr [OF f] have cf: "columns f = columns table" by auto
  obtain i where i: "index_of ?idc (columns table) = Some i"
    using g cf by (cases "index_of ?idc (columns table)") (simp_all add: groupby_Inl)
  from merge_Inr [OF mg] obtain rest where
    cm: "columns merged = columns table @ rest" and
    rm: "\<forall>r\<in>set (rows merged). \<exists>l\<in>set (rows f). \<exists>e. r = l @ e"
    using cf by auto
  let ?M = "getitem_mask merged keep"
  have sub: "set (rows ?M) \<subseteq> set (rows merged)"
    by (auto simp: getitem_mask_def dest: set_zip_leftD)
  have im: "index_of ?idc (columns ?M) = Some i"
    using index_of_append_left [OF i] by (simp add: getitem_mask_def cm)
  have "out = \<lparr>columns = columns table @ rest,
              rows = first_of_key [] (zip (map (\<lambda>r. r ! i) (rows ?M)) (rows ?M))\<rparr>"
    using hd im by (simp add: groupby_head1_def getitem_def) (simp add: getitem_mask_def cm)
  with tab f i rm sub show ?thesis
    by (intro exI [of _ table] exI [of _ f] exI [of _ rest] exI [of _ i] exI [of _ "rows ?M"]) auto
qed

lemma sqrt_hundredth: "sqrt (1 / 100) = 1 / 10"
  using real_sqrt_abs [of "1 / 10"] by (simp add: power2_eq_square)

lemmas clean_dataset_eval =
  clean_dataset_def copy_def default_filter_chembl_def getitem_def getitem_mask_def
  isnull_def groupby_def unique_def groupby_apply_def mark_to_remove_def np_std_def
  np_median_def population_std_def middle_value_def mean_def py_dict_def reset_index_def
  merge_def project_def cell_of_def groupby_head1_def power2_eq_square

lemma example_filter: "default_filter_chembl example_table = Inr example_filtered"
  by (simp add: example_table_def example_filtered_def default_filter_chembl_def getitem_def
      getitem_mask_def isnull_def)

lemma example_run:
  "clean_dataset example_numerics example_preprocessing example_source = Inr example_clean"
  by (simp add: clean_dataset_eval example_source_def example_table_def
      example_numerics_def exact_numerics_def example_float_def
      example_preprocessing_def example_clean_def sqrt_hundredth)

lemma find_map: "find P (map g xs) = map_option g (find (\<lambda>x. P (g x)) xs)"
  by (induction xs) auto

lemma find_filter_imp: "(\<And>x. x \<in> set xs \<Longrightarrow> P x \<Longrightarrow> Q x) \<Longrightarrow> find P (filter Q xs) = find P xs"
  by (induction xs) auto

lemma find_None_filter: "(\<And>x. x \<in> set xs \<Longrightarrow> P x \<Longrightarrow> \<not> Q x) \<Longrightarrow> find P (filter Q xs) = None"
  by (induction xs) auto


lemma first_of_key_zip_subset: "set (first_of_key seen (zip ks rs)) \<subseteq> set rs"
proof -
  have "snd ` set (zip ks rs) \<subseteq> set rs" by (auto dest: set_zip_rightD)
  with first_of_key_subset [of seen "zip ks rs"] show ?thesis by blast
qed




lemma find_cong_set: "(\<And>x. x \<in> set xs \<Longrightarrow> P x = Q x) \<Longrightarrow> find P xs = find Q xs"
  by (induction xs) auto

lemma clean_dataset_group_rows:
  assumes wf: "wf_frame table" and tab: "bioactivities_df ds = Some table"
    and nc: "set (columns table) \<inter> set (summary_labels self) = {}"
    and ok: "clean_dataset nm self ds = Inr out"
  shows "\<exists>f i sm. default_filter_chembl table = Inr f \<and>
     index_of (compound_id_column ds) (columns table) = Some i \<and>
     columns out = columns table @ summary_labels self \<and>
     group_keys f i \<noteq> [] \<and>
     (\<forall>k\<in>set (group_keys f i).
        mark_to_remove nm self (group_of f i k) (ds_activity_column ds) = Inr (sm k) \<and>
        [r \<leftarrow> rows out. r ! i = k] =
          (if map_of (sm k) ''mark_to_remove'' = Some (Boolean True) then []
           else (case find (\<lambda>l. l ! i = k) (rows f) of None \<Rightarrow> []
                 | Some l \<Rightarrow> [l @ map snd (sm k)]))) \<and>
     (\<forall>r\<in>set (rows out). r ! i \<in> set (group_keys f i))"
proof -
  from clean_dataset_closed [OF wf tab nc ok] obtain f i sm where
    f: "default_filter_chembl table = Inr f" and
    i: "index_of (compound_id_column ds) (columns table) = Some i" and
    ne: "group_keys f i \<noteq> []" and
    sm: "\<forall>k\<in>set (group_keys f i).
         mark_to_remove nm self (group_of f i k) (ds_activity_column ds) = Inr (sm k)" and
    out: "out = \<lparr>columns = columns table @ summary_labels self,
            rows = (let R = map (\<lambda>l. l @ map snd (sm (l ! i)))
                             (filter (\<lambda>l. l ! i \<noteq> Null \<and>
                                 map_of (sm (l ! i)) ''mark_to_remove'' \<noteq> Some (Boolean True)) (rows f))
                    in first_of_key [] (zip (map (\<lambda>r. r ! i) R) R))\<rparr>"
    by blast
  let ?h = "\<lambda>l. l ! i \<noteq> Null \<and> map_of (sm (l ! i)) ''mark_to_remove'' \<noteq> Some (Boolean True)"
  let ?ext = "\<lambda>l. l @ map snd (sm (l ! i))"
  let ?R = "map ?ext (filter ?h (rows f))"
  have ro: "rows out = first_of_key [] (zip (map (\<lambda>r. r ! i) ?R) ?R)"
    by (simp add: out Let_def)
  from default_filter_chembl_Inr [OF f] obtain P where
    fdef: "f = \<lparr>columns = columns table, rows = filter P (rows table)\<rparr>" by blast
  have iC: "i < length (columns table)" using index_of_Some [OF i] by simp
  have lenr: "length l = length (columns table)" if "l \<in> set (rows f)" for l
    using wf that by (auto simp: fdef wf_frame_def list_all_iff)
  have exti: "?ext l ! i = l ! i" if "l \<in> set (rows f)" for l
    using lenr [OF that] iC by (simp add: nth_append)
  have fnd: "find (\<lambda>r. r ! i = k) ?R = map_option ?ext (find (\<lambda>l. l ! i = k) (filter ?h (rows f)))" for k
  proof -
    have "find (\<lambda>r. r ! i = k) ?R = map_option ?ext (find (\<lambda>l. ?ext l ! i = k) (filter ?h (rows f)))"
      by (rule find_map)
    also have "find (\<lambda>l. ?ext l ! i = k) (filter ?h (rows f)) = find (\<lambda>l. l ! i = k) (filter ?h (rows f))"
      by (rule find_cong_set) (simp add: exti)
    finally show ?thesis .
  qed
  have grp: "[r \<leftarrow> rows out. r ! i = k] =
          (if map_of (sm k) ''mark_to_remove'' = Some (Boolean True) then []
           else (case find (\<lambda>l. l ! i = k) (rows f) of None \<Rightarrow> []
                 | Some l \<Rightarrow> [l @ map snd (sm k)]))" if k: "k \<in> set (group_keys f i)" for k
  proof -
    have kn: "k \<noteq> Null" using k by (auto simp: group_keys_def)
    have base: "[r \<leftarrow> rows out. r ! i = k] =
        (case find (\<lambda>r. r ! i = k) ?R of None \<Rightarrow> [] | Some r \<Rightarrow> [r])"
      unfolding ro using first_of_key_filter [of "\<lambda>r. r ! i" k "[]" ?R] kn by simp
    show ?thesis
    proof (cases "map_of (sm k) ''mark_to_remove'' = Some (Boolean True)")
      case True
      have "find (\<lambda>l. l ! i = k) (filter ?h (rows f)) = None"
        by (rule find_None_filter) (use True in auto)
      then show ?thesis using True by (simp add: base fnd)
    next
      case False
      have "find (\<lambda>l. l ! i = k) (filter ?h (rows f)) = find (\<lambda>l. l ! i = k) (rows f)"
        by (rule find_filter_imp) (use False kn in auto)
      moreover have "map_option ?ext (find (\<lambda>l. l ! i = k) (rows f))
          = map_option (\<lambda>l. l @ map snd (sm k)) (find (\<lambda>l. l ! i = k) (rows f))"
        by (cases "find (\<lambda>l. l ! i = k) (rows f)") (auto dest: find_Some_iff [THEN iffD1])
      ultimately show ?thesis using False
        by (cases "find (\<lambda>l. l ! i = k) (rows f)") (simp_all add: base fnd)
    qed
  qed
  have mem: "r ! i \<in> set (group_keys f i)" if "r \<in> set (rows out)" for r
  proof -
    from that have "r \<in> set ?R"
      using first_of_key_zip_subset [of "[]" "map (\<lambda>r. r ! i) ?R" ?R] ro by auto
    then obtain l where l: "l \<in> set (rows f)" "?h l" and r: "r = ?ext l" by auto
    have "r ! i = l ! i" using exti [OF l(1)] r by simp
    then show ?thesis using l by (auto simp: group_keys_def)
  qed
  have co: "columns out = columns table @ summary_labels self" by (simp add: out)
  from f i co ne sm grp mem show ?thesis by blast
qed

lemma example_wf: "wf_frame example_table"
  by (simp add: wf_frame_def example_table_def)

lemma example_no_collision:
  "set (columns example_table) \<inter> set (summary_labels example_preprocessing) = {}"
  by (simp add: example_table_def summary_labels_def example_preprocessing_def)

lemma example_table_of: "bioactivities_df example_source = Some example_table"
  by (simp add: example_source_def)



lemma getitem_error: "getitem df c = Inl e \<Longrightarrow> e = KeyError c"
  by (simp add: getitem_def split: option.splits)

lemma default_filter_chembl_error:
  "default_filter_chembl df = Inl e \<Longrightarrow> \<exists>c. e = KeyError c"
  by (auto simp: default_filter_chembl_def Let_def split: sum.splits dest: getitem_error)

lemma groupby_error: "groupby df c = Inl e \<Longrightarrow> e = KeyError c"
  by (auto simp: groupby_def split: sum.splits dest: getitem_error)

lemma to_float_error:
  "to_float nm c = Inl e \<Longrightarrow> e = ValueError ''could not convert string to float''"
  by (cases c) (auto split: option.splits)

lemma astype_float_error:
  "astype_float nm cs = Inl e \<Longrightarrow> e = ValueError ''could not convert string to float''"
  by (induction cs) (auto split: sum.splits dest: to_float_error)

lemma mark_to_remove_error:
  "mark_to_remove nm self g act = Inl e \<Longrightarrow>
     e = KeyError act \<or> e = ValueError ''could not convert string to float''"
  by (auto simp: mark_to_remove_def Let_def split: sum.splits
      dest: getitem_error astype_float_error)

lemma apply_each_error: "apply_each F gs = Inl e \<Longrightarrow> \<exists>g. F g = Inl e"
  by (induction gs) (auto split: sum.splits)

lemma groupby_apply_error: "groupby_apply c gs F = Inl e \<Longrightarrow> \<exists>g. F g = Inl e"
  by (auto simp: groupby_apply_def split: sum.splits list.splits dest: apply_each_error)

lemma reset_index_error:
  "reset_index g = Inl e \<Longrightarrow> e = ValueError ''cannot insert, already exists''"
  by (auto simp: reset_index_def Let_def split: if_splits)

lemma merge_error:
  "merge l r = Inl e \<Longrightarrow> e = MergeError ''No common columns to perform merge on''"
  by (auto simp: merge_def Let_def split: if_splits)

lemma invert_error: "invert cs = Inl e \<Longrightarrow> e = TypeError ''bad operand type for unary ~''"
  by (induction cs rule: invert.induct) (auto split: sum.splits)

lemma groupby_head1_error: "groupby_head1 df c = Inl e \<Longrightarrow> e = KeyError c"
  by (auto simp: groupby_head1_def split: sum.splits dest: getitem_error)

lemma clean_dataset_chembl_error:
  assumes "source_type ds = ChEMBLApiDataSource" and "clean_dataset nm self ds = Inl e"
  shows "e \<noteq> ValueError ''Data source not recognized''"
  using assms
  by (auto simp: clean_dataset_def Let_def split: option.splits sum.splits
      dest!: default_filter_chembl_error groupby_error groupby_apply_error mark_to_remove_error
        reset_index_error merge_error getitem_error invert_error groupby_head1_error)




lemma delete_list_all: "list_all P d \<Longrightarrow> list_all P (AList.delete k d)"
  by (induction d) auto



lemma default_filter_chembl_store_sound:
  assumes "default_filter_chembl_store a h = (res, h')"
  shows "take (length h) h' = h \<and>
     (case res of
        Inl e \<Rightarrow> default_filter_chembl (h ! a) = Inl e
      | Inr b \<Rightarrow> length h \<le> b \<and> b < length h' \<and>
                 default_filter_chembl (h ! a) = Inr (h' ! b))"
  using assms
  by (auto simp: default_filter_chembl_store_def default_filter_chembl_def new_frame_def
      Let_def nth_append split: sum.splits)

lemma take_prefix_trans:
  "take (length h0) h1 = h0 \<Longrightarrow> take (length h) h0 = h \<Longrightarrow> take (length h) h1 = h"
  by (metis length_take min.cobounded1 min_def take_take)

lemma deref_simps:
  "source_type (deref h ds) = source_type ds"
  "compound_id_column (deref h ds) = compound_id_column ds"
  "ds_activity_column (deref h ds) = ds_activity_column ds"
  "bioactivities_df (deref h ds) = map_option (\<lambda>a. h ! a) (bioactivities_df ds)"
  by (simp_all add: deref_def)

lemma clean_dataset_store_sound:
  assumes run: "clean_dataset_store nm self ds h = (res, h')"
    and valid: "\<forall>a. bioactivities_df ds = Some a \<longrightarrow> a < length h"
  shows "take (length h) h' = h \<and>
     (case res of
        Inl e \<Rightarrow> clean_dataset nm self (deref h ds) = Inl e
      | Inr b \<Rightarrow> length h \<le> b \<and> b < length h' \<and>
                 clean_dataset nm self (deref h ds) = Inr (h' ! b))"
proof (cases "bioactivities_df ds")
  case None
  then show ?thesis using run by (auto simp: clean_dataset_store_def clean_dataset_def deref_def)
next
  case (Some a)
  then have a: "a < length h" using valid by simp
  let ?h0 = "h @ [h ! a]"
  let ?idc = "compound_id_column ds"
  let ?F = "\<lambda>x. mark_to_remove nm self x (ds_activity_column ds)"
  show ?thesis
  proof (cases "source_type ds = ChEMBLApiDataSource")
    case False
    then show ?thesis
      using run Some by (auto simp: clean_dataset_store_def clean_dataset_def deref_def new_frame_def)
  next
    case True
    obtain r1 h1 where f1: "default_filter_chembl_store (length h) ?h0 = (r1, h1)"
      by (cases "default_filter_chembl_store (length h) ?h0") auto
    from default_filter_chembl_store_sound [OF f1]
    have t1: "take (length ?h0) h1 = ?h0"
      and c1: "case r1 of
        Inl e \<Rightarrow> default_filter_chembl (h ! a) = Inl e
      | Inr b \<Rightarrow> length ?h0 \<le> b \<and> b < length h1 \<and>
                 default_filter_chembl (h ! a) = Inr (h1 ! b)"
      by (auto split: sum.splits)
    have th1: "take (length h) h1 = h"
      by (rule take_prefix_trans [OF t1]) simp
    have unfold_pure: "clean_dataset nm self (deref h ds) =
       (case default_filter_chembl (h ! a) of
               Inl e \<Rightarrow> Inl e
             | Inr df \<Rightarrow>
            (case groupby df ?idc of
               Inl e \<Rightarrow> Inl e
             | Inr groups \<Rightarrow>
            (case groupby_apply ?idc groups ?F of
               Inl e \<Rightarrow> Inl e
             | Inr grouped \<Rightarrow>
            (case reset_index grouped of
               Inl e \<Rightarrow> Inl e
             | Inr summary \<Rightarrow>
            (case merge df summary of
               Inl e \<Rightarrow> Inl e
             | Inr merged \<Rightarrow>
            (case getitem merged ''mark_to_remove'' of
               Inl e \<Rightarrow> Inl e
             | Inr marks \<Rightarrow>
            (case invert marks of
               Inl e \<Rightarrow> Inl e
             | Inr keep \<Rightarrow> groupby_head1 (getitem_mask merged keep) ?idc)))))))"
      unfolding clean_dataset_def deref_simps Some True Let_def copy_id by simp
    show ?thesis
    proof (cases r1)
      case (Inl e)
      then show ?thesis
        using run Some True f1 c1 th1
        by (auto simp: clean_dataset_store_def new_frame_def unfold_pure)
    next
      case (Inr a1)
      with c1 have a1: "a1 < length h1" and la1: "length h < a1"
        and d1: "default_filter_chembl (h ! a) = Inr (h1 ! a1)"
        by simp_all
      have lh: "length h < length h1" using a1 la1 by simp
      have tk: "take (length h) (h1 @ xs) = h" for xs
        using th1 lh by simp
      show ?thesis
        using run Some True f1 Inr a1 lh th1
        by (auto simp: clean_dataset_store_def new_frame_def unfold_pure d1 Let_def nth_append tk
            split: sum.splits)
    qed
  qed
qed

lemma take_prefix_length:
  assumes "take (length h) h' = h"
  shows "length h \<le> length h'"
proof -
  have "length (take (length h) h') = length h" by (rule arg_cong [OF assms])
  then show ?thesis by simp
qed

lemma take_prefix_nth:
  assumes "take (length h) h' = h" and "b < length h"
  shows "h' ! b = h ! b"
proof -
  have "take (length h) h' ! b = h' ! b" using assms(2) by (rule nth_take)
  then show ?thesis by (simp only: assms(1))
qed









lemma apply_each_ok:
  "(\<And>k. k \<in> set keys \<Longrightarrow> F (G k) = Inr (s k)) \<Longrightarrow>
   apply_each F (map (\<lambda>k. (k, G k)) keys) = Inr (map s keys)"
  by (induction keys) auto


lemma getitem_mask_all: "getitem_mask df (map (\<lambda>x. True) (rows df)) = df"
  by simp

lemma astype_float_ok:
  "(\<And>c. c \<in> set cs \<Longrightarrow> \<exists>x. to_float nm c = Inr x) \<Longrightarrow> \<exists>vs. astype_float nm cs = Inr vs"
proof (induction cs)
  case Nil
  show ?case by simp
next
  case (Cons c cs)
  from Cons.prems [of c] obtain x where "to_float nm c = Inr x" by auto
  moreover from Cons.IH Cons.prems obtain vs where "astype_float nm cs = Inr vs" by auto
  ultimately show ?case by simp
qed

text \<open>
  When \<^verbatim>\<open>clean_dataset\<close> returns a table: the source is a ChEMBL one whose table has the
  columns read by the filter, the compound column and the activity column, no column named
  as a summary label, a filtered row with a compound identifier, and activities that convert
  to float on the filtered rows with an identifier.
\<close>

lemma clean_dataset_returns:
  assumes wf: "wf_frame table" and tab: "bioactivities_df ds = Some table"
    and st: "source_type ds = ChEMBLApiDataSource"
    and nc: "set (columns table) \<inter> set (summary_labels self) = {}"
    and f: "default_filter_chembl table = Inr f"
    and i: "index_of (compound_id_column ds) (columns table) = Some i"
    and a: "index_of (ds_activity_column ds) (columns table) = Some a"
    and ne: "\<exists>l\<in>set (rows f). l ! i \<noteq> Null"
    and conv: "\<forall>l\<in>set (rows f). l ! i \<noteq> Null \<longrightarrow> (\<exists>x. to_float nm (l ! a) = Inr x)"
  shows "\<exists>out. clean_dataset nm self ds = Inr out"
proof -
  let ?idc = "compound_id_column ds"
  let ?act = "ds_activity_column ds"
  let ?F = "\<lambda>x. mark_to_remove nm self x ?act"
  let ?L = "summary_labels self"
  let ?C = "columns table"
  let ?n = "length ?C"
  let ?keys = "group_keys f i"
  from default_filter_chembl_Inr [OF f] obtain P where
    fdef: "f = \<lparr>columns = ?C, rows = filter P (rows table)\<rparr>" by blast
  have cf: "columns f = ?C" by (simp add: fdef)
  have "?idc \<in> set ?C" using index_of_Some [OF i] by (metis nth_mem)
  with nc have idcL: "?idc \<notin> set ?L" by blast
  have dC: "distinct ?C" using wf by (simp add: wf_frame_def)
  have dL: "distinct ?L" by (simp add: summary_labels_def)
  have lenr: "length l = ?n" if "l \<in> set (rows f)" for l
    using wf that by (auto simp: fdef wf_frame_def list_all_iff)
  have grp: "groupby f ?idc = Inr (map (\<lambda>k. (k, group_of f i k)) ?keys)"
    by (rule groupby_Inr) (simp add: cf i)
  have ex: "\<exists>s. ?F (group_of f i k) = Inr s" if k: "k \<in> set ?keys" for k
  proof -
    have kn: "k \<noteq> Null" using k by (auto simp: group_keys_def)
    have g: "getitem (group_of f i k) ?act = Inr (map (\<lambda>r. r ! a) (rows (group_of f i k)))"
      using a by (simp add: getitem_def group_of_def cf)
    have "\<exists>vs. astype_float nm (map (\<lambda>r. r ! a) (rows (group_of f i k))) = Inr vs"
      by (rule astype_float_ok) (use conv kn in \<open>auto simp: group_of_def\<close>)
    then obtain vs where "astype_float nm (map (\<lambda>r. r ! a) (rows (group_of f i k))) = Inr vs"
      by blast
    then show ?thesis by (simp add: mark_to_remove_def g Let_def)
  qed
  define sm where "sm k = (case ?F (group_of f i k) of Inr s \<Rightarrow> s | Inl e \<Rightarrow> [])" for k
  have smk: "?F (group_of f i k) = Inr (sm k)" if "k \<in> set ?keys" for k
    using ex [OF that] by (auto simp: sm_def)
  have fstk: "map fst (sm k) = ?L" if "k \<in> set ?keys" for k
    using mark_to_remove_Inr [OF smk [OF that]] by simp
  have lenv: "\<forall>k\<in>set ?keys. length (map snd (sm k)) = length ?L"
    using fstk by (metis length_map)
  have kne: "?keys \<noteq> []"
  proof
    assume "?keys = []"
    then have "set ?keys = {}" by simp
    then show False using ne by (auto simp: group_keys_def set_unique)
  qed
  then obtain k0 ks0 where k0: "?keys = k0 # ks0" by (cases ?keys) auto
  have ae: "apply_each ?F (map (\<lambda>k. (k, group_of f i k)) ?keys) = Inr (map sm ?keys)"
    by (rule apply_each_ok) (rule smk)
  have ga: "groupby_apply ?idc (map (\<lambda>k. (k, group_of f i k)) ?keys) ?F
      = Inr \<lparr>index_name = Some ?idc, index_values = ?keys,
             body = \<lparr>columns = ?L, rows = map (map snd \<circ> sm) ?keys\<rparr>\<rparr>"
  proof -
    have "map fst (sm k0) = ?L" using fstk [of k0] k0 by simp
    then show ?thesis
      unfolding groupby_apply_def ae by (simp add: k0 comp_def)
  qed
  have ri: "reset_index \<lparr>index_name = Some ?idc, index_values = ?keys,
             body = \<lparr>columns = ?L, rows = map (map snd \<circ> sm) ?keys\<rparr>\<rparr>
      = Inr \<lparr>columns = ?idc # ?L, rows = map (\<lambda>k. k # map snd (sm k)) ?keys\<rparr>"
    using idcL by (simp add: reset_index_def Let_def zip_map_keys comp_def)
  let ?R0 = "filter (\<lambda>l. l ! i \<in> set ?keys) (rows f)"
  let ?ext = "\<lambda>l. l @ map snd (sm (l ! i))"
  have dk: "distinct ?keys" by (simp add: group_keys_def)
  have mg: "merge f \<lparr>columns = ?idc # ?L, rows = map (\<lambda>k. k # map snd (sm k)) ?keys\<rparr>
      = Inr \<lparr>columns = ?C @ ?L, rows = map ?ext ?R0\<rparr>"
    using merge_summary [OF dC i nc dL idcL dk lenv, of "rows f"] by (simp add: fdef)
  obtain j where j: "index_of ''mark_to_remove'' ?L = Some j"
    by (cases "index_of ''mark_to_remove'' ?L") (simp_all add: index_of_None summary_labels_def)
  have mtrC: "''mark_to_remove'' \<notin> set ?C" using nc by (auto simp: summary_labels_def)
  have jm: "index_of ''mark_to_remove'' (?C @ ?L) = Some (?n + j)"
    using index_of_append_right [OF mtrC, of ?L] j by simp
  define mk where "mk l \<longleftrightarrow> map_of (sm (l ! i)) ''mark_to_remove'' = Some (Boolean True)"
    for l :: row
  have cellm: "?ext l ! (?n + j) = Boolean (mk l)" if "l \<in> set ?R0" for l
  proof -
    from that have lf: "l \<in> set (rows f)" and kk: "l ! i \<in> set ?keys" by auto
    have jj: "j < length ?L" using index_of_Some [OF j] by simp
    from mark_to_remove_Inr [OF smk [OF kk]] obtain b where
      b: "map_of (sm (l ! i)) ''mark_to_remove'' = Some (Boolean b)" by blast
    have "map_of (sm (l ! i)) ''mark_to_remove'' = Some (snd (sm (l ! i) ! j))"
      by (rule map_of_index_of) (simp add: fstk [OF kk] j)
    with b have e: "snd (sm (l ! i) ! j) = Boolean b" by simp
    have "mk l = b" unfolding mk_def b by simp
    with e have "snd (sm (l ! i) ! j) = Boolean (mk l)" by simp
    moreover have "length (sm (l ! i)) = length ?L" using fstk [OF kk] by (metis length_map)
    ultimately show ?thesis using lenr [OF lf] jj by (simp add: nth_append)
  qed
  have "getitem \<lparr>columns = ?C @ ?L, rows = map ?ext ?R0\<rparr> ''mark_to_remove''
      = Inr (map (\<lambda>l. ?ext l ! (?n + j)) ?R0)"
    by (simp add: getitem_def jm comp_def)
  also have "map (\<lambda>l. ?ext l ! (?n + j)) ?R0 = map (\<lambda>l. Boolean (mk l)) ?R0"
    by (rule map_cong [OF refl]) (rule cellm)
  finally have gm: "getitem \<lparr>columns = ?C @ ?L, rows = map ?ext ?R0\<rparr> ''mark_to_remove''
      = Inr (map (\<lambda>l. Boolean (mk l)) ?R0)" .
  have hd: "\<exists>out. groupby_head1 (getitem_mask \<lparr>columns = ?C @ ?L, rows = map ?ext ?R0\<rparr> keep) ?idc
      = Inr out" for keep
    using index_of_append_left [OF i, of ?L]
    by (simp add: groupby_head1_def getitem_def getitem_mask_def)
  show ?thesis
    using hd by (simp add: clean_dataset_def tab st f grp ga ri mg gm invert_Boolean)
qed

lemma mark_to_remove_count:
  assumes "mark_to_remove nm self g act = Inr s"
  shows "(activity_column self \<noteq> ''duplicated'' \<longrightarrow>
            map_of s ''duplicated'' = Some (Boolean (length (rows g) > 1))) \<and>
         (activity_column self = ''duplicated'' \<longrightarrow>
            map_of s ''number_compounds'' = Some (Num (real (length (rows g)))))"
proof -
  from assms obtain a where a: "index_of act (columns g) = Some a"
    by (auto simp: mark_to_remove_def getitem_def split: option.splits)
  from assms a obtain vs where vs: "astype_float nm (map (\<lambda>r. r ! a) (rows g)) = Inr vs"
    by (auto simp: mark_to_remove_def getitem_def split: sum.splits)
  have s: "s = py_dict [(''number_compounds'', Num (real (length (rows g)))),
                    (''standard_deviation'', cell_of_float (np_std nm vs)),
                    (activity_column self, cell_of_float (np_median nm vs)),
                    (''duplicated'', Boolean (length (rows g) > 1)),
                    (''mark_to_remove'', Boolean (float_gt (np_std nm vs) 1))]"
    using assms a vs by (simp add: mark_to_remove_def getitem_def Let_def)
  show ?thesis
    unfolding s by (simp add: py_dict_def update_conv')
qed

lemma merge_row:
  assumes "merge left right = Inr m" and "r \<in> set (rows m)"
  shows "\<exists>l\<in>set (rows left). \<exists>p\<in>set (rows right). (\<exists>e. r = l @ e) \<and>
     (\<forall>c\<in>set (columns left) \<inter> set (columns right).
        cell_of (columns right) p c = cell_of (columns left) l c)"
proof -
  let ?on = "filter (\<lambda>c. c \<in> set (columns right)) (columns left)"
  from assms obtain l p e where l: "l \<in> set (rows left)" and p: "p \<in> set (rows right)"
    and pr: "project (columns right) p ?on = project (columns left) l ?on" and r: "r = l @ e"
    by (auto simp: merge_def Let_def split: if_splits)
  have "cell_of (columns right) p c = cell_of (columns left) l c"
    if "c \<in> set (columns left) \<inter> set (columns right)" for c
  proof -
    from that have "c \<in> set ?on" by simp
    with pr show ?thesis unfolding project_def by (meson map_eq_conv)
  qed
  with l p r show ?thesis by blast
qed

lemma summary_row:
  assumes ga: "groupby_apply c groups F = Inr grouped"
    and ri: "reset_index grouped = Inr summary"
    and p: "p \<in> set (rows summary)"
    and lab: "\<And>g s. F g = Inr s \<Longrightarrow> map fst s = L"
  shows "columns summary = c # L \<and> c \<notin> set L \<and>
         (\<exists>k g s. (k, g) \<in> set groups \<and> F g = Inr s \<and> p = k # map snd s)"
proof -
  from ga obtain ss where ae: "apply_each F groups = Inr ss"
    by (auto simp: groupby_apply_def split: sum.splits)
  from apply_each_Inr [OF ae] have la: "list_all2 (\<lambda>g s. F (snd g) = Inr s) groups ss" .
  show ?thesis
  proof (cases ss)
    case Nil
    with ga ae have "grouped = \<lparr>index_name = None, index_values = [],
        body = \<lparr>columns = [], rows = []\<rparr>\<rparr>"
      by (simp add: groupby_apply_def)
    with ri p show ?thesis by (auto simp: reset_index_def Let_def)
  next
    case (Cons s0 ss0)
    with ga ae have gr: "grouped = \<lparr>index_name = Some c, index_values = map fst groups,
        body = \<lparr>columns = map fst s0, rows = map (map snd) ss\<rparr>\<rparr>"
      by (simp add: groupby_apply_def)
    from la Cons obtain g0 where "F (snd g0) = Inr s0"
      by (auto simp: list_all2_Cons2)
    then have l0: "map fst s0 = L" by (rule lab)
    from ri gr have cL: "c \<notin> set L" and
      su: "summary = \<lparr>columns = c # L,
              rows = map (\<lambda>(k, r). k # r) (zip (map fst groups) (map (map snd) ss))\<rparr>"
      by (auto simp: reset_index_def Let_def l0 split: if_splits)
    from p su obtain k v where kv: "(k, v) \<in> set (zip (map fst groups) (map (map snd) ss))"
      and pk: "p = k # v" by auto
    from kv obtain n where n: "n < length groups" "n < length ss"
      and k: "k = fst (groups ! n)" and v: "v = map snd (ss ! n)"
      by (auto simp: set_zip)
    have "F (snd (groups ! n)) = Inr (ss ! n)"
      using list_all2_nthD [OF la n(1)] .
    moreover have "(k, snd (groups ! n)) \<in> set groups"
      using n k by (metis nth_mem prod.collapse)
    ultimately show ?thesis using su cL pk v by auto
  qed
qed

lemma clean_dataset_merged:
  assumes ok: "clean_dataset nm self ds = Inr out" and tab: "bioactivities_df ds = Some table"
  shows "\<exists>f groups grouped summary merged.
     default_filter_chembl table = Inr f \<and>
     groupby f (compound_id_column ds) = Inr groups \<and>
     groupby_apply (compound_id_column ds) groups
        (\<lambda>x. mark_to_remove nm self x (ds_activity_column ds)) = Inr grouped \<and>
     reset_index grouped = Inr summary \<and>
     merge f summary = Inr merged \<and>
     set (rows out) \<subseteq> set (rows merged)"
proof -
  let ?idc = "compound_id_column ds"
  let ?F = "\<lambda>x. mark_to_remove nm self x (ds_activity_column ds)"
  from ok tab obtain f groups grouped summary merged marks keep where
    f: "default_filter_chembl table = Inr f" and
    g: "groupby f ?idc = Inr groups" and
    ga: "groupby_apply ?idc groups ?F = Inr grouped" and
    ri: "reset_index grouped = Inr summary" and
    mg: "merge f summary = Inr merged" and
    hd: "groupby_head1 (getitem_mask merged keep) ?idc = Inr out"
    by (auto simp: clean_dataset_def Let_def split: sum.splits if_splits option.splits)
  let ?M = "getitem_mask merged keep"
  have sub: "set (rows ?M) \<subseteq> set (rows merged)"
    by (auto simp: getitem_mask_def dest: set_zip_leftD)
  from hd obtain ks where "rows out = first_of_key [] (zip ks (rows ?M))"
    by (auto simp: groupby_head1_def split: sum.splits)
  then have "set (rows out) \<subseteq> set (rows ?M)"
    using first_of_key_zip_subset [of "[]" ks "rows ?M"] by simp
  with sub f g ga ri mg show ?thesis by blast
qed

lemma count_le_one:
  "distinct (map key rs) \<Longrightarrow> length (filter (\<lambda>r. key r = k) rs) \<le> 1"
proof (induction rs)
  case Nil
  show ?case by simp
next
  case (Cons r rs)
  show ?case
  proof (cases "key r = k")
    case True
    with Cons.prems have "k \<notin> key ` set rs" by auto
    then have "filter (\<lambda>r. key r = k) rs = []" by (auto simp: filter_empty_conv)
    with True show ?thesis by simp
  next
    case False
    with Cons show ?thesis by simp
  qed
qed

lemma clean_dataset_again_only_if:
  assumes wf: "wf_frame table" and tab: "bioactivities_df ds = Some table"
    and nc: "set (columns table) \<inter> set (summary_labels self) = {}"
    and ok: "clean_dataset nm self ds = Inr out"
    and f: "default_filter_chembl table = Inr f"
    and i: "index_of (compound_id_column ds) (columns table) = Some i"
    and again: "clean_dataset nm self (ds\<lparr>bioactivities_df := Some out\<rparr>) = Inr out"
    and r: "r \<in> set (rows out)"
  shows "length (filter (\<lambda>l. l ! i = r ! i) (rows f)) = 1"
proof -
  let ?idc = "compound_id_column ds"
  let ?act = "ds_activity_column ds"
  let ?F = "\<lambda>x. mark_to_remove nm self x ?act"
  let ?L = "summary_labels self"
  let ?C = "columns table"
  let ?n = "length ?C"
  let ?k = "r ! i"
  from clean_dataset_group_rows [OF wf tab nc ok] f i obtain sm where
    co: "columns out = ?C @ ?L" and
    grp: "\<forall>k\<in>set (group_keys f i).
        ?F (group_of f i k) = Inr (sm k) \<and>
        [r \<leftarrow> rows out. r ! i = k] =
          (if map_of (sm k) ''mark_to_remove'' = Some (Boolean True) then []
           else (case find (\<lambda>l. l ! i = k) (rows f) of None \<Rightarrow> []
                 | Some l \<Rightarrow> [l @ map snd (sm k)]))" and
    keys: "\<forall>r\<in>set (rows out). r ! i \<in> set (group_keys f i)"
    by auto
  from default_filter_chembl_Inr [OF f] obtain P where
    fdef: "f = \<lparr>columns = ?C, rows = filter P (rows table)\<rparr>" by blast
  have dC: "distinct ?C" using wf by (simp add: wf_frame_def)
  have dL: "distinct ?L" by (simp add: summary_labels_def)
  have lenr: "length l = ?n" if "l \<in> set (rows f)" for l
    using wf that by (auto simp: fdef wf_frame_def list_all_iff)
  have iC: "i < ?n" using index_of_Some [OF i] by simp
  have kk: "?k \<in> set (group_keys f i)" using keys r by blast
  with grp have smk: "?F (group_of f i ?k) = Inr (sm ?k)" and
    rows_k: "[r \<leftarrow> rows out. r ! i = ?k] =
          (if map_of (sm ?k) ''mark_to_remove'' = Some (Boolean True) then []
           else (case find (\<lambda>l. l ! i = ?k) (rows f) of None \<Rightarrow> []
                 | Some l \<Rightarrow> [l @ map snd (sm ?k)]))"
    by auto
  have "r \<in> set [r' \<leftarrow> rows out. r' ! i = ?k]" using r by simp
  with rows_k obtain l0 where l0: "find (\<lambda>l. l ! i = ?k) (rows f) = Some l0"
    and rl: "r = l0 @ map snd (sm ?k)"
    by (cases "find (\<lambda>l. l ! i = ?k) (rows f)") (auto split: if_splits)
  have l0f: "l0 \<in> set (rows f)" using l0 by (auto simp: find_Some_iff)
  have len0: "length l0 = ?n" by (rule lenr [OF l0f])
  have fst1: "map fst (sm ?k) = ?L" using mark_to_remove_Inr [OF smk] by simp
  have lensm: "length (sm ?k) = length ?L" using fst1 by (metis length_map)
  have ge1: "length (filter (\<lambda>l. l ! i = ?k) (rows f)) \<ge> 1"
  proof -
    have "l0 ! i = ?k" using l0 by (auto simp: find_Some_iff)
    with l0f have "filter (\<lambda>l. l ! i = ?k) (rows f) \<noteq> []" by (auto simp: filter_empty_conv)
    then show ?thesis by (cases "filter (\<lambda>l. l ! i = ?k) (rows f)") simp_all
  qed
  have n1: "length (rows (group_of f i ?k)) = length (filter (\<lambda>l. l ! i = ?k) (rows f))"
    by (simp add: group_of_def)
  \<comment> \<open>The second call.\<close>
  let ?ds2 = "ds\<lparr>bioactivities_df := Some out\<rparr>"
  from clean_dataset_merged [OF again, of out] obtain f2 groups2 grouped2 summary2 merged2 where
    f2: "default_filter_chembl out = Inr f2" and
    g2: "groupby f2 ?idc = Inr groups2" and
    ga2: "groupby_apply ?idc groups2 ?F = Inr grouped2" and
    ri2: "reset_index grouped2 = Inr summary2" and
    mg2: "merge f2 summary2 = Inr merged2" and
    sub2: "set (rows out) \<subseteq> set (rows merged2)"
    by auto
  from default_filter_chembl_Inr [OF f2] obtain P2 where
    f2def: "f2 = \<lparr>columns = columns out, rows = filter P2 (rows out)\<rparr>" by blast
  have cf2: "columns f2 = ?C @ ?L" by (simp add: f2def co)
  have io: "index_of ?idc (?C @ ?L) = Some i" by (rule index_of_append_left [OF i])
  have groups2: "groups2 = map (\<lambda>k. (k, group_of f2 i k)) (group_keys f2 i)"
    using g2 groupby_Inr [of ?idc f2 i] io by (simp add: cf2)
  from sub2 r have rm: "r \<in> set (rows merged2)" by blast
  from merge_row [OF mg2 rm] obtain l p e where
    l: "l \<in> set (rows f2)" and p: "p \<in> set (rows summary2)" and re: "r = l @ e" and
    agree: "\<forall>c\<in>set (columns f2) \<inter> set (columns summary2).
        cell_of (columns summary2) p c = cell_of (columns f2) l c"
    by blast
  have lab: "map fst s = ?L" if "?F g = Inr s" for g s
    using mark_to_remove_Inr [OF that] by simp
  have "columns summary2 = ?idc # ?L \<and> ?idc \<notin> set ?L \<and>
         (\<exists>k g s. (k, g) \<in> set groups2 \<and> ?F g = Inr s \<and> p = k # map snd s)"
    by (rule summary_row [OF ga2 ri2 p]) (rule lab)
  then obtain k' g' s' where
    cs2: "columns summary2 = ?idc # ?L" and idcL: "?idc \<notin> set ?L" and
    kg: "(k', g') \<in> set groups2" and s': "?F g' = Inr s'" and pk: "p = k' # map snd s'"
    by blast
  have g': "g' = group_of f2 i k'" using kg by (auto simp: groups2)
  \<comment> \<open>The row of the second table that is merged is \<open>r\<close> itself.\<close>
  have lo: "l \<in> set (rows out)" using l by (simp add: f2def)
  have lenout: "length x = ?n + length ?L" if "x \<in> set (rows out)" for x
  proof -
    have xk: "x ! i \<in> set (group_keys f i)" using keys that by blast
    with grp have sx: "?F (group_of f i (x ! i)) = Inr (sm (x ! i))" and
      rx: "[r \<leftarrow> rows out. r ! i = x ! i] =
          (if map_of (sm (x ! i)) ''mark_to_remove'' = Some (Boolean True) then []
           else (case find (\<lambda>l. l ! i = x ! i) (rows f) of None \<Rightarrow> []
                 | Some l \<Rightarrow> [l @ map snd (sm (x ! i))]))"
      by auto
    have "x \<in> set [r \<leftarrow> rows out. r ! i = x ! i]" using that by simp
    with rx obtain lx where lx: "find (\<lambda>l. l ! i = x ! i) (rows f) = Some lx"
      and xl: "x = lx @ map snd (sm (x ! i))"
      by (cases "find (\<lambda>l. l ! i = x ! i) (rows f)") (auto split: if_splits)
    have "lx \<in> set (rows f)" using lx by (auto simp: find_Some_iff)
    then have "length lx = ?n" by (rule lenr)
    moreover have "length (sm (x ! i)) = length ?L"
      using mark_to_remove_Inr [OF sx] by (metis length_map)
    ultimately show ?thesis by (subst xl) simp
  qed
  have "length r = length l" using lenout [OF r] lenout [OF lo] by simp
  with re have lr: "l = r" by simp
  \<comment> \<open>Agreement on the compound column: the partner is the summary of the group of \<open>r\<close>.\<close>
  have "?idc \<in> set ?C" using index_of_Some [OF i] by (metis nth_mem)
  then have idc_common: "?idc \<in> set (columns f2) \<inter> set (columns summary2)"
    by (simp add: cf2 cs2)
  have "cell_of (columns summary2) p ?idc = Some k'"
    by (simp add: cs2 pk cell_of_def)
  moreover have "cell_of (columns f2) l ?idc = Some ?k"
    by (simp add: cf2 lr cell_of_def io)
  ultimately have k': "k' = ?k" using agree idc_common by auto
  have lens': "length s' = length ?L" using lab [OF s'] by (metis length_map)
  \<comment> \<open>Agreement on every summary label.\<close>
  have same: "map_of s' c = map_of (sm ?k) c" if c: "c \<in> set ?L" for c
  proof -
    from c obtain j where j: "index_of c ?L = Some j"
      by (cases "index_of c ?L") (simp_all add: index_of_None)
    have jj: "j < length ?L" using index_of_Some [OF j] by simp
    have cC: "c \<notin> set ?C" using nc c by auto
    have cidc: "c \<noteq> ?idc" using c idcL by auto
    have "c \<in> set (columns f2) \<inter> set (columns summary2)" using c by (simp add: cf2 cs2)
    with agree have eq: "cell_of (columns summary2) p c = cell_of (columns f2) l c" by blast
    have a1: "cell_of (columns summary2) p c = Some (snd (s' ! j))"
      using cidc j jj lens' by (simp add: cs2 pk cell_of_def)
    have "index_of c (?C @ ?L) = Some (?n + j)"
      using index_of_append_right [OF cC, of ?L] j by simp
    then have a2: "cell_of (columns f2) l c = Some (snd (sm ?k ! j))"
      using jj lensm len0 by (simp add: cf2 lr cell_of_def) (subst rl, simp add: nth_append)
    have b1: "map_of s' c = Some (snd (s' ! j))"
      by (rule map_of_index_of) (simp add: lab [OF s'] j)
    have b2: "map_of (sm ?k) c = Some (snd (sm ?k ! j))"
      by (rule map_of_index_of) (simp add: fst1 j)
    from eq a1 a2 b1 b2 show ?thesis by simp
  qed
  \<comment> \<open>The group of \<open>r\<close> in the second table has at most one row.\<close>
  have dk: "distinct (map (\<lambda>x. x ! i) (rows out))"
  proof -
    from clean_dataset_general [OF ok] tab i obtain R where
      "rows out = first_of_key [] (zip (map (\<lambda>r. r ! i) R) R)" by auto
    then show ?thesis using first_of_key_distinct [of "\<lambda>r. r ! i" "[]" R] by simp
  qed
  have le1: "length (rows g') \<le> 1"
  proof -
    define Q where "Q = filter (\<lambda>x. x ! i = ?k) (rows out)"
    have "rows g' = filter P2 Q"
      by (simp add: g' k' group_of_def f2def conj_commute Q_def)
    then have "length (rows g') \<le> length Q" by simp
    then have "length (rows g') \<le> length (filter (\<lambda>x. x ! i = ?k) (rows out))"
      by (simp only: Q_def)
    also have "\<dots> \<le> 1" by (rule count_le_one [OF dk])
    finally show ?thesis .
  qed
  have "length (rows (group_of f i ?k)) \<le> 1"
  proof (cases "activity_column self = ''duplicated''")
    case True
    have "''number_compounds'' \<in> set ?L" by (simp add: summary_labels_def unique_def)
    from same [OF this] mark_to_remove_count [OF s'] mark_to_remove_count [OF smk] True
    have "length (rows g') = length (rows (group_of f i ?k))" by simp
    with le1 show ?thesis by simp
  next
    case False
    have "''duplicated'' \<in> set ?L" by (simp add: summary_labels_def unique_def)
    from same [OF this] mark_to_remove_count [OF s'] mark_to_remove_count [OF smk] False
    have "(length (rows g') > 1) = (length (rows (group_of f i ?k)) > 1)" by simp
    with le1 show ?thesis by simp
  qed
  with ge1 n1 show ?thesis by simp
qed

section \<open>The claims\<close>

text \<open>
  Claim C2. In every table that \<^verbatim>\<open>clean_dataset\<close> returns, the compound identifier
  column exists and no two rows share an identifier: for every identifier present, exactly
  one row carries it.
\<close>

theorem clean_dataset_unique_ids:
  assumes "clean_dataset nm self ds = Inr out"
  shows "\<exists>ids. getitem out (compound_id_column ds) = Inr ids \<and> distinct ids \<and>
     (\<forall>c\<in>set ids. length (filter (\<lambda>r. cell_of (columns out) r (compound_id_column ds) = Some c)
                          (rows out)) = 1)"
proof -
  from clean_dataset_general [OF assms] obtain table f rest i R where
    "bioactivities_df ds = Some table" and "default_filter_chembl table = Inr f" and
    co: "columns out = columns table @ rest" and
    i: "index_of (compound_id_column ds) (columns table) = Some i" and
    ro: "rows out = first_of_key [] (zip (map (\<lambda>r. r ! i) R) R)" and
    "\<forall>r\<in>set R. \<exists>l\<in>set (rows f). \<exists>e. r = l @ e"
    by (elim exE conjE)
  have io: "index_of (compound_id_column ds) (columns out) = Some i"
    using index_of_append_left [OF i] co by simp
  let ?ids = "map (\<lambda>r. r ! i) (rows out)"
  have g: "getitem out (compound_id_column ds) = Inr ?ids"
    by (simp add: getitem_def io)
  have d: "distinct ?ids"
    using first_of_key_distinct [of "\<lambda>r. r ! i" "[]" R] ro by simp
  have "length (filter (\<lambda>r. cell_of (columns out) r (compound_id_column ds) = Some c) (rows out)) = 1"
    if "c \<in> set ?ids" for c
    using count_distinct [OF d that] by (simp add: cell_of_def io)
  with g d show ?thesis by blast
qed

theorem clean_dataset_unique_ids_witness:
  "clean_dataset example_numerics example_preprocessing example_source = Inr example_clean \<and>
   getitem example_clean ''parent_molecule_chembl_id'' = Inr [Str ''A'', Str ''C''] \<and>
   length (filter (\<lambda>r. cell_of (columns example_clean) r ''parent_molecule_chembl_id''
                          = Some (Str ''A'')) (rows example_clean)) = 1 \<and>
   length (filter (\<lambda>r. cell_of (columns example_clean) r ''parent_molecule_chembl_id''
                          = Some (Str ''C'')) (rows example_clean)) = 1"
  using clean_dataset_unique_ids [OF example_run] example_run
  by (simp add: example_source_def) (simp add: example_clean_def getitem_def cell_of_def)

text \<open>
  Claim C3. The filter for the remote-database provider keeps a row exactly when its
  relation is \<open>=\<close>, its \<^verbatim>\<open>data_validity_comment\<close> is null and its
  \<^verbatim>\<open>pchembl_value\<close> is not null; it succeeds whenever the three columns exist; and
  every row of a table \<^verbatim>\<open>clean_dataset\<close> returns has relation \<open>=\<close>.
\<close>

theorem default_filter_chembl_conjunction:
  "(default_filter_chembl df = Inr f \<longrightarrow>
      columns f = columns df \<and>
      rows f = filter (\<lambda>r. cell_of (columns df) r ''relation'' = Some (Str ''='') \<and>
                         cell_of (columns df) r ''data_validity_comment'' = Some Null \<and>
                         (\<exists>v. cell_of (columns df) r ''pchembl_value'' = Some v \<and> v \<noteq> Null))
                 (rows df)) \<and>
   ({''relation'', ''data_validity_comment'', ''pchembl_value''} \<subseteq> set (columns df) \<longrightarrow>
      (\<exists>f'. default_filter_chembl df = Inr f')) \<and>
   (wf_frame df \<longrightarrow> bioactivities_df ds = Some df \<longrightarrow> clean_dataset nm self ds = Inr out \<longrightarrow>
      (\<forall>r\<in>set (rows out). cell_of (columns out) r ''relation'' = Some (Str ''=''))) "
proof (intro conjI impI)
  assume "default_filter_chembl df = Inr f"
  from default_filter_chembl_Inr [OF this] obtain a b c where
    a: "index_of ''relation'' (columns df) = Some a" and
    b: "index_of ''data_validity_comment'' (columns df) = Some b" and
    c: "index_of ''pchembl_value'' (columns df) = Some c" and
    f: "f = \<lparr>columns = columns df,
             rows = filter (\<lambda>r. r ! a = Str ''='' \<and> r ! b = Null \<and> r ! c \<noteq> Null) (rows df)\<rparr>"
    by blast
  show "columns f = columns df" by (simp add: f)
  show "rows f = filter (\<lambda>r. cell_of (columns df) r ''relation'' = Some (Str ''='') \<and>
                         cell_of (columns df) r ''data_validity_comment'' = Some Null \<and>
                         (\<exists>v. cell_of (columns df) r ''pchembl_value'' = Some v \<and> v \<noteq> Null))
                 (rows df)"
    by (simp add: f cell_of_def a b c)
next
  assume "{''relation'', ''data_validity_comment'', ''pchembl_value''} \<subseteq> set (columns df)"
  then obtain a b c where "index_of ''relation'' (columns df) = Some a"
    "index_of ''data_validity_comment'' (columns df) = Some b"
    "index_of ''pchembl_value'' (columns df) = Some c"
    using index_of_None [of _ "columns df"] by (metis insert_subset not_Some_eq)
  from default_filter_chembl_ok [OF this] show "\<exists>f'. default_filter_chembl df = Inr f'" by blast
next
  assume wf: "wf_frame df" and tab: "bioactivities_df ds = Some df"
    and ok: "clean_dataset nm self ds = Inr out"
  from clean_dataset_general [OF ok] tab obtain f rest i R where
    f: "default_filter_chembl df = Inr f" and
    co: "columns out = columns df @ rest" and
    ro: "rows out = first_of_key [] (zip (map (\<lambda>r. r ! i) R) R)" and
    rr: "\<forall>r\<in>set R. \<exists>l\<in>set (rows f). \<exists>e. r = l @ e"
    by auto
  from default_filter_chembl_Inr [OF f] obtain a b c where
    a: "index_of ''relation'' (columns df) = Some a" and
    fd: "f = \<lparr>columns = columns df,
             rows = filter (\<lambda>r. r ! a = Str ''='' \<and> r ! b = Null \<and> r ! c \<noteq> Null) (rows df)\<rparr>"
    by blast
  have al: "a < length (columns df)" using index_of_Some [OF a] by simp
  show "\<forall>r\<in>set (rows out). cell_of (columns out) r ''relation'' = Some (Str ''='')"
  proof
    fix r assume "r \<in> set (rows out)"
    then have "r \<in> set R" using first_of_key_zip_subset [of "[]" "map (\<lambda>r. r ! i) R" R] ro
      by auto
    then obtain l e where l: "l \<in> set (rows f)" and r: "r = l @ e" using rr by blast
    from l have "l \<in> set (rows df)" and la: "l ! a = Str ''=''" by (simp_all add: fd)
    then have "length l = length (columns df)" using wf by (auto simp: wf_frame_def list_all_iff)
    then have "r ! a = Str ''=''" using la al by (simp add: r nth_append)
    then show "cell_of (columns out) r ''relation'' = Some (Str ''='')"
      by (simp add: cell_of_def co index_of_append_left [OF a])
  qed
qed

theorem default_filter_chembl_conjunction_witness:
  "default_filter_chembl example_table = Inr example_filtered \<and>
   rows example_filtered = [r \<leftarrow> rows example_table. r ! 1 = Str ''=''] \<and>
   clean_dataset example_numerics example_preprocessing example_source = Inr example_clean \<and>
   map (\<lambda>r. cell_of (columns example_clean) r ''relation'') (rows example_clean)
     = [Some (Str ''=''), Some (Str ''='')]"
proof -
  have wf: "wf_frame example_table"
    by (simp add: wf_frame_def example_table_def)
  have tab: "bioactivities_df example_source = Some example_table"
    by (simp add: example_source_def)
  from default_filter_chembl_conjunction
         [of example_table example_filtered example_source example_numerics
            example_preprocessing example_clean]
       wf tab example_run example_filter
  have "\<forall>r\<in>set (rows example_clean).
          cell_of (columns example_clean) r ''relation'' = Some (Str ''='')"
    by blast
  then have "map (\<lambda>r. cell_of (columns example_clean) r ''relation'') (rows example_clean)
     = [Some (Str ''=''), Some (Str ''='')]"
    by (simp add: example_clean_def)
  moreover have "rows example_filtered = [r \<leftarrow> rows example_table. r ! 1 = Str ''='']"
    by (simp add: example_filtered_def example_table_def)
  ultimately show ?thesis using example_run example_filter by simp
qed




text \<open>
  Claim C4, amended. For a raw table none of whose columns bears the label of a summary
  column, every row of the table \<^verbatim>\<open>clean_dataset\<close> returns, cut back to the columns of
  the input, is the first row of the filtered table, in table order, that carries its
  compound identifier; the computed median plays no part in the choice.
\<close>

theorem clean_dataset_representative:
  assumes wf: "wf_frame table" and tab: "bioactivities_df ds = Some table"
    and nc: "set (columns table) \<inter> set (summary_labels self) = {}"
    and ok: "clean_dataset nm self ds = Inr out"
  shows "\<exists>f. default_filter_chembl table = Inr f \<and>
     (\<forall>r\<in>set (rows out). \<exists>k.
        cell_of (columns out) r (compound_id_column ds) = Some k \<and>
        find (\<lambda>l. cell_of (columns table) l (compound_id_column ds) = Some k) (rows f)
          = Some (take (length (columns table)) r))"
proof -
  let ?idc = "compound_id_column ds"
  from clean_dataset_group_rows [OF wf tab nc ok] obtain f i sm where
    f: "default_filter_chembl table = Inr f" and
    i: "index_of ?idc (columns table) = Some i" and
    co: "columns out = columns table @ summary_labels self" and
    grp: "\<forall>k\<in>set (group_keys f i).
        mark_to_remove nm self (group_of f i k) (ds_activity_column ds) = Inr (sm k) \<and>
        [r \<leftarrow> rows out. r ! i = k] =
          (if map_of (sm k) ''mark_to_remove'' = Some (Boolean True) then []
           else (case find (\<lambda>l. l ! i = k) (rows f) of None \<Rightarrow> []
                 | Some l \<Rightarrow> [l @ map snd (sm k)]))" and
    mem: "\<forall>r\<in>set (rows out). r ! i \<in> set (group_keys f i)"
    by blast
  from default_filter_chembl_Inr [OF f] obtain P where
    fdef: "f = \<lparr>columns = columns table, rows = filter P (rows table)\<rparr>" by blast
  have lenr: "length l = length (columns table)" if "l \<in> set (rows f)" for l
    using wf that by (auto simp: fdef wf_frame_def list_all_iff)
  have io: "cell_of (columns out) r ?idc = Some (r ! i)" for r
    by (simp add: cell_of_def co index_of_append_left [OF i])
  have it: "cell_of (columns table) l ?idc = Some (l ! i)" for l
    by (simp add: cell_of_def i)
  have "find (\<lambda>l. cell_of (columns table) l ?idc = Some (r ! i)) (rows f)
          = Some (take (length (columns table)) r)" if r: "r \<in> set (rows out)" for r
  proof -
    let ?k = "r ! i"
    from mem r have k: "?k \<in> set (group_keys f i)" by blast
    have "r \<in> set [r' \<leftarrow> rows out. r' ! i = ?k]" using r by simp
    also have "[r' \<leftarrow> rows out. r' ! i = ?k] =
          (if map_of (sm ?k) ''mark_to_remove'' = Some (Boolean True) then []
           else (case find (\<lambda>l. l ! i = ?k) (rows f) of None \<Rightarrow> []
                 | Some l \<Rightarrow> [l @ map snd (sm ?k)]))"
      using grp k by blast
    finally have "r \<in> set (if map_of (sm ?k) ''mark_to_remove'' = Some (Boolean True) then []
           else (case find (\<lambda>l. l ! i = ?k) (rows f) of None \<Rightarrow> []
                 | Some l \<Rightarrow> [l @ map snd (sm ?k)]))" .
    then obtain l where l: "find (\<lambda>l. l ! i = ?k) (rows f) = Some l"
      and rl: "r = l @ map snd (sm ?k)"
      by (cases "find (\<lambda>l. l ! i = ?k) (rows f)") (auto split: if_splits)
    from l have "l \<in> set (rows f)" by (auto simp: find_Some_iff)
    then have "length l = length (columns table)" by (rule lenr)
    then have "take (length (columns table)) (l @ map snd (sm ?k)) = l" by simp
    then have "take (length (columns table)) r = l" by (subst rl)
    then show ?thesis using l by (simp add: it)
  qed
  then show ?thesis using f io by blast
qed

theorem clean_dataset_representative_witness:
  "clean_dataset example_numerics example_preprocessing example_source = Inr example_clean \<and>
   find (\<lambda>l. cell_of (columns example_table) l ''parent_molecule_chembl_id'' = Some (Str ''A''))
     (rows example_filtered) = Some (take 4 (rows example_clean ! 0)) \<and>
   find (\<lambda>l. cell_of (columns example_table) l ''parent_molecule_chembl_id'' = Some (Str ''C''))
     (rows example_filtered) = Some (take 4 (rows example_clean ! 1))"
  using clean_dataset_representative
          [OF example_wf example_table_of example_no_collision example_run] example_run
  by (simp add: example_filter example_source_def)
     (simp add: example_clean_def example_filtered_def example_table_def cell_of_def)

theorem clean_dataset_representative_counterexample:
  "default_filter_chembl (numeric_table [5, 26 / 5, 51 / 10])
     = Inr (numeric_table [5, 26 / 5, 51 / 10]) \<and>
   find (\<lambda>l. cell_of (columns (numeric_table [5, 26 / 5, 51 / 10])) l
                ''parent_molecule_chembl_id'' = Some (Str ''A''))
     (rows (numeric_table [5, 26 / 5, 51 / 10])) = Some [Str ''A'', Str ''='', Null, Num 5] \<and>
   clean_dataset example_numerics median_named_preprocessing
       (chembl_source (numeric_table [5, 26 / 5, 51 / 10])) =
     Inr \<lparr>columns = [''parent_molecule_chembl_id'', ''relation'', ''data_validity_comment'',
                     ''pchembl_value'', ''number_compounds'', ''standard_deviation'',
                     ''duplicated'', ''mark_to_remove''],
          rows = [[Str ''A'', Str ''='', Null, Num (51 / 10), Num 3, Num (sqrt (1 / 150)),
                   Boolean True, Boolean False]]\<rparr>"
  by (simp add: clean_dataset_eval example_numerics_def exact_numerics_def
      chembl_source_def numeric_table_def
      median_named_preprocessing_def)

text \<open>
  Claim C5, amended. For a raw table none of whose columns bears the label of a summary
  column, the columns of the table \<^verbatim>\<open>clean_dataset\<close> returns are the columns of the
  input followed by the labels of the whole group summary: \<^verbatim>\<open>number_compounds\<close>,
  \<^verbatim>\<open>standard_deviation\<close>, the median column under its configured name (default
  \<^verbatim>\<open>median_activity_value\<close>), \<^verbatim>\<open>duplicated\<close> and \<^verbatim>\<open>mark_to_remove\<close>; five added
  columns when the configured name is none of the other four.
\<close>

theorem clean_dataset_columns:
  assumes wf: "wf_frame table" and tab: "bioactivities_df ds = Some table"
    and nc: "set (columns table) \<inter> set (summary_labels self) = {}"
    and ok: "clean_dataset nm self ds = Inr out"
  shows "columns out = columns table @ summary_labels self \<and>
     set (columns out) = set (columns table) \<union>
        {''number_compounds'', ''standard_deviation'', activity_column self,
         ''duplicated'', ''mark_to_remove''} \<and>
     (activity_column self \<notin> {''number_compounds'', ''standard_deviation'', ''duplicated'',
                                ''mark_to_remove''} \<longrightarrow>
        summary_labels self = [''number_compounds'', ''standard_deviation'',
                               activity_column self, ''duplicated'', ''mark_to_remove'']) \<and>
     activity_column (Preprocessing_init None) = ''median_activity_value'' \<and>
     activity_column (Preprocessing_init (Some c)) = c"
proof -
  from clean_dataset_group_rows [OF wf tab nc ok]
  have co: "columns out = columns table @ summary_labels self" by blast
  have sl: "set (summary_labels self) = {''number_compounds'', ''standard_deviation'',
      activity_column self, ''duplicated'', ''mark_to_remove''}"
    by (simp add: summary_labels_def)
  have five: "summary_labels self = [''number_compounds'', ''standard_deviation'',
                               activity_column self, ''duplicated'', ''mark_to_remove'']"
    if "activity_column self \<notin> {''number_compounds'', ''standard_deviation'', ''duplicated'',
                                ''mark_to_remove''}"
  proof -
    from that have a: "activity_column self \<noteq> ''number_compounds''"
      "activity_column self \<noteq> ''standard_deviation''"
      "activity_column self \<noteq> ''duplicated''"
      "activity_column self \<noteq> ''mark_to_remove''" by simp_all
    show ?thesis
      using a a [symmetric] by (simp add: summary_labels_def unique_def)
  qed
  have init: "activity_column (Preprocessing_init None) = ''median_activity_value''"
    "activity_column (Preprocessing_init (Some c)) = c"
    by (simp_all add: Preprocessing_init_def)
  have "set (columns out) = set (columns table) \<union>
        {''number_compounds'', ''standard_deviation'', activity_column self,
         ''duplicated'', ''mark_to_remove''}"
    unfolding co set_append sl ..
  with co five init show ?thesis by blast
qed

theorem clean_dataset_columns_witness:
  "clean_dataset example_numerics example_preprocessing example_source = Inr example_clean \<and>
   columns example_clean = columns example_table @
     [''number_compounds'', ''standard_deviation'', ''median_activity_value'', ''duplicated'',
      ''mark_to_remove'']"
  using clean_dataset_columns
          [OF example_wf example_table_of example_no_collision example_run] example_run
  by (simp add: example_preprocessing_def)

theorem clean_dataset_columns_counterexample:
  "clean_dataset example_numerics (Preprocessing_init None) example_source = Inr example_clean \<and>
   set (columns example_clean) \<noteq> set (columns example_table) \<union> {''median_activity_value''} \<and>
   length (columns example_clean) = length (columns example_table) + 5"
proof -
  have p: "Preprocessing_init None = example_preprocessing"
    by (simp add: Preprocessing_init_def example_preprocessing_def)
  have a: "''duplicated'' \<in> set (columns example_clean)"
    by (simp add: example_clean_def)
  have b: "''duplicated'' \<notin> set (columns example_table) \<union> {''median_activity_value''}"
    by (simp add: example_table_def)
  from a b have ne: "set (columns example_clean) \<noteq>
      set (columns example_table) \<union> {''median_activity_value''}"
    by metis
  have len: "length (columns example_clean) = length (columns example_table) + 5"
    by (simp add: example_clean_def example_table_def)
  from ne len example_run show ?thesis unfolding p by blast
qed

text \<open>
  Claim C7, amended. For a data source object that carries a table, \<^verbatim>\<open>clean_dataset\<close>
  raises its own \<open>ValueError\<close> ("Data source not recognized") exactly when the class of
  the object is not \<^verbatim>\<open>ChEMBLApiDataSource\<close>, and then returns no table; the error comes
  from the first and only attempt. An object without the attribute
  \<^verbatim>\<open>bioactivities_df\<close> fails earlier, with \<open>AttributeError\<close>.
\<close>

theorem clean_dataset_unsupported_source:
  "(clean_dataset nm self ds = Inl (ValueError ''Data source not recognized'') \<longleftrightarrow>
      (\<exists>table. bioactivities_df ds = Some table) \<and> source_type ds \<noteq> ChEMBLApiDataSource) \<and>
   (source_type ds \<noteq> ChEMBLApiDataSource \<longrightarrow> (\<forall>out. clean_dataset nm self ds \<noteq> Inr out)) \<and>
   (bioactivities_df ds = None \<longrightarrow>
      clean_dataset nm self ds = Inl (AttributeError ''bioactivities_df''))"
proof -
  have 1: "(\<exists>table. bioactivities_df ds = Some table) \<and> source_type ds \<noteq> ChEMBLApiDataSource"
    if e: "clean_dataset nm self ds = Inl (ValueError ''Data source not recognized'')"
  proof -
    from e obtain table where t: "bioactivities_df ds = Some table"
      by (cases "bioactivities_df ds") (simp_all add: clean_dataset_def)
    moreover have "source_type ds \<noteq> ChEMBLApiDataSource"
      using clean_dataset_chembl_error [OF _ e] by blast
    ultimately show ?thesis by blast
  qed
  have 2: "clean_dataset nm self ds = Inl (ValueError ''Data source not recognized'')"
    if "(\<exists>table. bioactivities_df ds = Some table) \<and> source_type ds \<noteq> ChEMBLApiDataSource"
    using that by (auto simp: clean_dataset_def)
  have 3: "\<forall>out. clean_dataset nm self ds \<noteq> Inr out"
    if "source_type ds \<noteq> ChEMBLApiDataSource"
    using that by (cases "bioactivities_df ds") (simp_all add: clean_dataset_def)
  have 4: "clean_dataset nm self ds = Inl (AttributeError ''bioactivities_df'')"
    if "bioactivities_df ds = None"
    using that by (simp add: clean_dataset_def)
  from 1 2 3 4 show ?thesis by blast
qed

theorem clean_dataset_unsupported_source_witness:
  "bioactivities_df csv_source = Some example_table \<and>
   source_type csv_source \<noteq> ChEMBLApiDataSource \<and>
   clean_dataset example_numerics example_preprocessing csv_source
     = Inl (ValueError ''Data source not recognized'') \<and>
   clean_dataset example_numerics example_preprocessing example_source = Inr example_clean"
proof -
  have a: "bioactivities_df csv_source = Some example_table"
    and b: "source_type csv_source \<noteq> ChEMBLApiDataSource"
    by (simp_all add: csv_source_def)
  from clean_dataset_unsupported_source [of example_numerics example_preprocessing csv_source] a b
  have "clean_dataset example_numerics example_preprocessing csv_source
     = Inl (ValueError ''Data source not recognized'')" by blast
  with a b example_run show ?thesis by blast
qed

theorem clean_dataset_unsupported_source_counterexample:
  "source_type base_source \<noteq> ChEMBLApiDataSource \<and>
   clean_dataset example_numerics example_preprocessing base_source
     = Inl (AttributeError ''bioactivities_df'') \<and>
   clean_dataset example_numerics example_preprocessing base_source
     \<noteq> Inl (ValueError ''Data source not recognized'')"
  by (simp add: clean_dataset_def base_source_def)

text \<open>
  Claim C6 fails on the code. On a raw table with no row (and, as every table fetched from
  the remote database, without a column \<^verbatim>\<open>mark_to_remove\<close>) \<^verbatim>\<open>clean_dataset\<close> returns
  no table: it raises. With no group, \<^verbatim>\<open>apply\<close> returns a table that has none of the
  summary columns, and the merge finds no common column (or, for a table with a column
  \<^verbatim>\<open>index\<close>, the lookup of \<^verbatim>\<open>mark_to_remove\<close> fails).
\<close>

theorem clean_dataset_empty_table:
  assumes tab: "bioactivities_df ds = Some table" and empty: "rows table = []"
    and mtr: "''mark_to_remove'' \<notin> set (columns table)"
  shows "\<exists>e. clean_dataset nm self ds = Inl e"
proof (cases "clean_dataset nm self ds")
  case (Inl e)
  then show ?thesis by blast
next
  case (Inr out)
  let ?idc = "compound_id_column ds"
  let ?F = "\<lambda>x. mark_to_remove nm self x (ds_activity_column ds)"
  from Inr tab obtain f groups grouped summary merged marks where
    f: "default_filter_chembl table = Inr f" and
    g: "groupby f ?idc = Inr groups" and
    ga: "groupby_apply ?idc groups ?F = Inr grouped" and
    ri: "reset_index grouped = Inr summary" and
    mg: "merge f summary = Inr merged" and
    gm: "getitem merged ''mark_to_remove'' = Inr marks"
    by (auto simp: clean_dataset_def Let_def split: sum.splits if_splits)
  from default_filter_chembl_Inr [OF f] empty
  have cf: "columns f = columns table" and rf: "rows f = []" by auto
  have "groups = []"
    using g rf by (auto simp: groupby_def unique_def getitem_def split: sum.splits option.splits)
  then have "grouped = \<lparr>index_name = None, index_values = [],
      body = \<lparr>columns = [], rows = []\<rparr>\<rparr>"
    using ga by (simp add: groupby_apply_def)
  then have "summary = \<lparr>columns = [''index''], rows = []\<rparr>"
    using ri by (simp add: reset_index_def)
  then have "columns merged = columns table"
    using mg cf by (auto simp: merge_def Let_def filter_empty_conv split: if_splits)
  then have "getitem merged ''mark_to_remove'' = Inl (KeyError ''mark_to_remove'')"
    using mtr by (simp add: getitem_def index_of_None [THEN iffD2])
  with gm show ?thesis by simp
qed

theorem clean_dataset_empty_table_witness:
  "bioactivities_df (chembl_source (numeric_table [])) = Some (numeric_table []) \<and>
   rows (numeric_table []) = [] \<and>
   columns (numeric_table []) = [''parent_molecule_chembl_id'', ''relation'',
      ''data_validity_comment'', ''pchembl_value''] \<and>
   clean_dataset example_numerics example_preprocessing (chembl_source (numeric_table []))
     = Inl (MergeError ''No common columns to perform merge on'')"
proof -
  have a: "bioactivities_df (chembl_source (numeric_table [])) = Some (numeric_table [])"
    by (simp add: chembl_source_def)
  have b: "rows (numeric_table []) = []" by (simp add: numeric_table_def)
  have c: "''mark_to_remove'' \<notin> set (columns (numeric_table []))"
    by (simp add: numeric_table_def)
  from clean_dataset_empty_table [OF a b c, of example_numerics example_preprocessing]
  obtain e where e: "clean_dataset example_numerics example_preprocessing
      (chembl_source (numeric_table [])) = Inl e" by blast
  have "clean_dataset example_numerics example_preprocessing (chembl_source (numeric_table []))
     = Inl (MergeError ''No common columns to perform merge on'')"
    by (simp add: clean_dataset_eval chembl_source_def numeric_table_def)
  with a b show ?thesis using e by (simp add: numeric_table_def)
qed




text \<open>
  Claim C9. With tables as objects in a store, \<^verbatim>\<open>clean_dataset\<close> writes to no object
  that existed before the call: the table of the data source, and every other object of
  the store, is the same after the call, whether it returns or raises. The table it
  returns is an object allocated during the call, so it is not the table of the source,
  and it holds the value the value-level \<^verbatim>\<open>clean_dataset\<close> computes.
\<close>

theorem clean_dataset_leaves_raw_table:
  assumes tab: "bioactivities_df ds = Some a" and a: "a < length h"
    and run: "clean_dataset_store nm self ds h = (res, h')"
  shows "h' ! a = h ! a \<and> (\<forall>b<length h. h' ! b = h ! b) \<and> length h \<le> length h' \<and>
     (\<forall>out. res = Inr out \<longrightarrow>
        out \<noteq> a \<and> length h \<le> out \<and> out < length h' \<and>
        clean_dataset nm self (deref h ds) = Inr (h' ! out)) \<and>
     (\<forall>e. res = Inl e \<longrightarrow> clean_dataset nm self (deref h ds) = Inl e)"
proof -
  have valid: "\<forall>a. bioactivities_df ds = Some a \<longrightarrow> a < length h"
    using tab a by simp
  from clean_dataset_store_sound [OF run valid]
  have tk: "take (length h) h' = h"
    and rs: "case res of
        Inl e \<Rightarrow> clean_dataset nm self (deref h ds) = Inl e
      | Inr b \<Rightarrow> length h \<le> b \<and> b < length h' \<and>
                 clean_dataset nm self (deref h ds) = Inr (h' ! b)"
    by simp_all
  have len: "length h \<le> length h'"
    using tk by (rule take_prefix_length)
  have same: "h' ! b = h ! b" if "b < length h" for b
    using tk that by (rule take_prefix_nth)
  have "out \<noteq> a \<and> length h \<le> out \<and> out < length h' \<and>
        clean_dataset nm self (deref h ds) = Inr (h' ! out)" if "res = Inr out" for out
    using rs that a by auto
  moreover have "clean_dataset nm self (deref h ds) = Inl e" if "res = Inl e" for e
    using rs that by simp
  ultimately show ?thesis using same [OF a] same len by blast
qed

theorem clean_dataset_leaves_raw_table_witness:
  "deref example_store example_object = example_source \<and>
   (\<exists>out h'. clean_dataset_store example_numerics example_preprocessing example_object
                example_store = (Inr out, h') \<and>
      h' ! 0 = example_table \<and> h' ! 1 = example_filtered \<and> out \<noteq> 0 \<and>
      h' ! out = example_clean)"
proof -
  have d: "deref example_store example_object = example_source"
    by (simp add: deref_def example_store_def example_object_def example_source_def)
  have tab: "bioactivities_df example_object = Some 0"
    by (simp add: example_object_def)
  have a: "0 < length example_store" by (simp add: example_store_def)
  obtain res h' where run: "clean_dataset_store example_numerics example_preprocessing
      example_object example_store = (res, h')"
    by (cases "clean_dataset_store example_numerics example_preprocessing example_object
      example_store") auto
  note t = clean_dataset_leaves_raw_table [OF tab a run, unfolded d example_run]
  from t obtain out where out: "res = Inr out" by (cases res) auto
  with t have "out \<noteq> 0" "h' ! out = example_clean" by auto
  moreover from t have "h' ! 0 = example_table" "h' ! 1 = example_filtered"
    by (simp_all add: example_store_def)
  ultimately show ?thesis using d run out by blast
qed




end
